theory Spec2Isabelle
  imports Complex_Main
begin

section \<open>Text: the string operations the parser relies on\<close>

text \<open>
  A Python \<open>str\<close> is a sequence of code points. The model reads a \<open>char\<close> as one code
  point in the range U+0000 .. U+00FF, so a \<open>string\<close> is a \<open>str\<close> over that range.
  The character classes below are those of \<open>str.isspace\<close>, \<open>str.isalnum\<close> and
  \<open>str.lower\<close> on that range.
\<close>

definition code :: "char \<Rightarrow> nat" where
  "code c = of_char c"

definition isspace :: "char \<Rightarrow> bool" where
  "isspace c = ((9 \<le> code c \<and> code c \<le> 13) \<or> (28 \<le> code c \<and> code c \<le> 32)
                 \<or> code c = 133 \<or> code c = 160)"

definition isdigit :: "char \<Rightarrow> bool" where
  "isdigit c = (48 \<le> code c \<and> code c \<le> 57)"

definition isalnum :: "char \<Rightarrow> bool" where
  "isalnum c = (isdigit c \<or> (65 \<le> code c \<and> code c \<le> 90) \<or> (97 \<le> code c \<and> code c \<le> 122)
                 \<or> code c = 170 \<or> code c = 178 \<or> code c = 179 \<or> code c = 181
                 \<or> code c = 185 \<or> code c = 186 \<or> (188 \<le> code c \<and> code c \<le> 190)
                 \<or> (192 \<le> code c \<and> code c \<le> 214) \<or> (216 \<le> code c \<and> code c \<le> 246)
                 \<or> 248 \<le> code c)"

definition lower_char :: "char \<Rightarrow> char" where
  "lower_char c =
     (if (65 \<le> code c \<and> code c \<le> 90) \<or> (192 \<le> code c \<and> code c \<le> 222 \<and> code c \<noteq> 215)
      then char_of (code c + 32) else c)"

definition lower :: "string \<Rightarrow> string" where
  "lower s = map lower_char s"

text \<open>\<open>s.strip()\<close>: leading and trailing whitespace removed.\<close>

definition strip :: "string \<Rightarrow> string" where
  "strip s = rev (dropWhile isspace (rev (dropWhile isspace s)))"

text \<open>\<open>s.rstrip("\n")\<close>: trailing line feeds removed.\<close>

definition rstrip_nl :: "string \<Rightarrow> string" where
  "rstrip_nl s = rev (dropWhile (\<lambda>c. c = CHR 0x0A) (rev s))"

text \<open>\<open>s.split(sep)\<close> for a one-character separator: never the empty list.\<close>

fun split_on :: "char \<Rightarrow> string \<Rightarrow> string list" where
  "split_on sep [] = [[]]"
| "split_on sep (c # cs) =
     (if c = sep then [] # split_on sep cs
      else (case split_on sep cs of
              [] \<Rightarrow> [[c]]
            | p # ps \<Rightarrow> (c # p) # ps))"

text \<open>\<open>s.split(sep, 1)\<close>: at most one split, at the first separator.\<close>

definition split_once :: "char \<Rightarrow> string \<Rightarrow> string list" where
  "split_once sep s =
     (if sep \<in> set s then [takeWhile (\<lambda>c. c \<noteq> sep) s, tl (dropWhile (\<lambda>c. c \<noteq> sep) s)]
      else [s])"

text \<open>\<open>s.replace(old, new)\<close> for a one-character \<open>old\<close>; \<open>new\<close> is a string, so that
  the empty replacement deletes.\<close>

definition replace :: "char \<Rightarrow> string \<Rightarrow> string \<Rightarrow> string" where
  "replace old new s = concat (map (\<lambda>c. if c = old then new else [c]) s)"

text \<open>\<open>s.rfind(c)\<close>: the highest index of \<open>c\<close>, or \<open>-1\<close>.\<close>

fun rfind_from :: "char \<Rightarrow> int \<Rightarrow> int \<Rightarrow> string \<Rightarrow> int" where
  "rfind_from c i best [] = best"
| "rfind_from c i best (x # xs) = rfind_from c (i + 1) (if x = c then i else best) xs"

definition rfind :: "char \<Rightarrow> string \<Rightarrow> int" where
  "rfind c s = rfind_from c 0 (- 1) s"

definition startswith :: "string \<Rightarrow> string \<Rightarrow> bool" where
  "startswith s p = (take (length p) s = p)"

text \<open>
  \<open>s.splitlines()\<close>: the line boundaries in the modelled range are LF, CR, CR LF, VT, FF,
  FS, GS, RS and NEL; the boundaries are not kept, and the text after the last boundary
  is a line only when it is not empty.
\<close>

definition islinebreak :: "char \<Rightarrow> bool" where
  "islinebreak c = ((10 \<le> code c \<and> code c \<le> 13) \<or> (28 \<le> code c \<and> code c \<le> 30) \<or> code c = 133)"

fun splitlines_from :: "string \<Rightarrow> string \<Rightarrow> string list" where
  "splitlines_from cur [] = (if cur = [] then [] else [cur])"
| "splitlines_from cur [c] = (if islinebreak c then [cur] else [cur @ [c]])"
| "splitlines_from cur (c # d # cs) =
     (if c = CHR 0x0D \<and> d = CHR 0x0A then cur # splitlines_from [] cs
      else if islinebreak c then cur # splitlines_from [] (d # cs)
      else splitlines_from (cur @ [c]) (d # cs))"

definition splitlines :: "string \<Rightarrow> string list" where
  "splitlines s = splitlines_from [] s"

section \<open>Errors\<close>

text \<open>
  The exceptions the code can meet. A function that may raise returns \<open>error + 'a\<close>;
  \<open>Inl\<close> is the raised exception, and it propagates unless a handler of the source
  catches it.
\<close>

datatype error = OSError | ValueError | TypeError | IndexError

definition bindE :: "error + 'a \<Rightarrow> ('a \<Rightarrow> error + 'b) \<Rightarrow> error + 'b" where
  "bindE m f = (case m of Inl e \<Rightarrow> Inl e | Inr x \<Rightarrow> f x)"

text \<open>\<open>xs[i]\<close> for a non-negative index: IndexError out of range.\<close>

definition index :: "'a list \<Rightarrow> nat \<Rightarrow> error + 'a" where
  "index xs i = (if i < length xs then Inr (xs ! i) else Inl IndexError)"

section \<open>The builtin \<open>float\<close> on a string\<close>

text \<open>
  The value of \<open>float(s)\<close>. A finite result is kept as the exact rational the decimal
  text denotes; the rounding of that rational to the nearest binary64 is not modelled,
  except for its overflow: a magnitude of at least \<open>2^1024 - 2^970\<close> rounds to infinity.
\<close>

datatype pyfloat = Finite rat | Infinite | NaN

definition float_isspace :: "char \<Rightarrow> bool" where
  "float_isspace c = ((9 \<le> code c \<and> code c \<le> 13) \<or> code c = 32 \<or> code c = 133 \<or> code c = 160)"

text \<open>Underscores are digit separators: each one needs a digit on both sides.\<close>

fun underscores_ok :: "char option \<Rightarrow> string \<Rightarrow> bool" where
  "underscores_ok prev [] = (prev \<noteq> Some (CHR ''_''))"
| "underscores_ok prev (c # cs) =
     (if c = CHR ''_'' then (case prev of Some p \<Rightarrow> isdigit p | None \<Rightarrow> False) \<and> underscores_ok (Some c) cs
      else (if prev = Some (CHR ''_'') then isdigit c else True) \<and> underscores_ok (Some c) cs)"

definition digits_value :: "string \<Rightarrow> nat" where
  "digits_value ds = foldl (\<lambda>a c. 10 * a + (code c - 48)) 0 ds"

definition overflow_threshold :: rat where
  "overflow_threshold = 2 ^ 1024 - 2 ^ 970"

definition round_overflow :: "rat \<Rightarrow> pyfloat" where
  "round_overflow q = (if \<bar>q\<bar> < overflow_threshold then Finite q else Infinite)"

text \<open>The exponent part: empty, or \<open>e\<close>/\<open>E\<close>, an optional sign and at least one digit.\<close>

definition parse_exponent :: "string \<Rightarrow> int option" where
  "parse_exponent r =
     (case r of
        [] \<Rightarrow> Some 0
      | c # r1 \<Rightarrow>
          if c = CHR ''e'' \<or> c = CHR ''E'' then
            (let neg = (r1 \<noteq> [] \<and> hd r1 = CHR ''-'');
                 ds = (if r1 \<noteq> [] \<and> (hd r1 = CHR ''-'' \<or> hd r1 = CHR ''+'') then tl r1 else r1)
             in if ds \<noteq> [] \<and> list_all isdigit ds
                then Some (if neg then - int (digits_value ds) else int (digits_value ds))
                else None)
          else None)"

definition scale10 :: "rat \<Rightarrow> int \<Rightarrow> rat" where
  "scale10 q e = (if 0 \<le> e then q * 10 ^ nat e else q / 10 ^ nat (- e))"

text \<open>An unsigned body: \<open>inf\<close>, \<open>infinity\<close> or \<open>nan\<close> in any case, or a decimal number
  with at least one digit in its integer or fraction part.\<close>

definition parse_unsigned :: "string \<Rightarrow> pyfloat option" where
  "parse_unsigned b =
     (let ip = takeWhile isdigit b; r1 = dropWhile isdigit b;
          has_point = (r1 \<noteq> [] \<and> hd r1 = CHR ''.'');
          fp = (if has_point then takeWhile isdigit (tl r1) else []);
          r2 = (if has_point then dropWhile isdigit (tl r1) else r1)
      in if ip = [] \<and> fp = [] then
           (if lower b = ''inf'' \<or> lower b = ''infinity'' then Some Infinite
            else if lower b = ''nan'' then Some NaN
            else None)
         else (case parse_exponent r2 of
                 None \<Rightarrow> None
               | Some e \<Rightarrow>
                   Some (round_overflow
                     (scale10 (of_nat (digits_value ip) + of_nat (digits_value fp) / 10 ^ length fp) e))))"

definition negate :: "pyfloat \<Rightarrow> pyfloat" where
  "negate x = (case x of Finite q \<Rightarrow> Finite (- q) | Infinite \<Rightarrow> Infinite | NaN \<Rightarrow> NaN)"

definition float_str :: "string \<Rightarrow> error + pyfloat" where
  "float_str s =
     (if \<not> underscores_ok None s then Inl ValueError
      else
        (let t = filter (\<lambda>c. c \<noteq> CHR ''_'') s;
             u = rev (dropWhile float_isspace (rev (dropWhile float_isspace t)));
             neg = (u \<noteq> [] \<and> hd u = CHR ''-'');
             b = (if u \<noteq> [] \<and> (hd u = CHR ''-'' \<or> hd u = CHR ''+'') then tl u else u)
         in case parse_unsigned b of
              None \<Rightarrow> Inl ValueError
            | Some x \<Rightarrow> Inr (if neg then negate x else x)))"

definition isfinite :: "pyfloat \<Rightarrow> bool" where
  "isfinite x = (case x of Finite q \<Rightarrow> True | _ \<Rightarrow> False)"

section \<open>Numeric coercion\<close>

text \<open>The separator cleanup of \<open>_coerce_float\<close> on a string value.\<close>

definition clean_number :: "string \<Rightarrow> string" where
  "clean_number v =
     (let cleaned = strip v
      in if CHR '','' \<in> set cleaned \<and> CHR ''.'' \<in> set cleaned then
           (if rfind (CHR '','') cleaned > rfind (CHR ''.'') cleaned
            then replace (CHR '','') ''.'' (replace (CHR ''.'') [] cleaned)
            else replace (CHR '','') [] cleaned)
         else if CHR '','' \<in> set cleaned \<and> CHR ''.'' \<notin> set cleaned then
           replace (CHR '','') ''.'' cleaned
         else cleaned)"

text \<open>
  \<open>_coerce_float\<close> on the values the text parser passes: \<open>None\<close> or a string. The
  handler catches TypeError and ValueError; any other exception would propagate.
\<close>

definition coerce_float :: "string option \<Rightarrow> error + pyfloat option" where
  "coerce_float value =
     (case value of
        None \<Rightarrow> Inr None
      | Some v \<Rightarrow>
          (case float_str (clean_number v) of
             Inl e \<Rightarrow> (if e = TypeError \<or> e = ValueError then Inr None else Inl e)
           | Inr number \<Rightarrow> (if \<not> isfinite number then Inr None else Inr (Some number))))"

section \<open>Timestamps\<close>

text \<open>
  \<open>datetime.strptime\<close> and \<open>datetime.fromisoformat\<close> belong to the Python standard
  library, and the strings they accept differ between Python versions. The model takes
  both as parameters: on a string each returns a timestamp or raises ValueError, which
  \<open>None\<close> stands for. Every result below holds for any such pair of functions.
\<close>

record datetime =
  year :: nat
  month :: nat
  day :: nat
  hour :: nat
  minute :: nat
  second :: nat
  microsecond :: nat
  utcoffset :: "int option"

record pylib =
  strptime :: "string \<Rightarrow> string \<Rightarrow> datetime option"
  fromisoformat :: "string \<Rightarrow> datetime option"

definition call_strptime :: "pylib \<Rightarrow> string \<Rightarrow> string \<Rightarrow> error + datetime" where
  "call_strptime L v fmt = (case strptime L v fmt of None \<Rightarrow> Inl ValueError | Some d \<Rightarrow> Inr d)"

definition call_fromisoformat :: "pylib \<Rightarrow> string \<Rightarrow> error + datetime" where
  "call_fromisoformat L v = (case fromisoformat L v of None \<Rightarrow> Inl ValueError | Some d \<Rightarrow> Inr d)"

text \<open>\<open>_coerce_datetime\<close> on a string: the handler catches ValueError only.\<close>

definition coerce_datetime :: "pylib \<Rightarrow> string \<Rightarrow> error + datetime option" where
  "coerce_datetime L v =
     (case call_fromisoformat L v of
        Inr d \<Rightarrow> Inr (Some d)
      | Inl e \<Rightarrow> (if e = ValueError then Inr None else Inl e))"

text \<open>The loop of \<open>_parse_datetime_value\<close> over the formats, then the fallback.\<close>

fun try_formats :: "pylib \<Rightarrow> string \<Rightarrow> string list \<Rightarrow> error + datetime option" where
  "try_formats L v [] = coerce_datetime L v"
| "try_formats L v (fmt # fmts) =
     (case call_strptime L (strip v) fmt of
        Inr d \<Rightarrow> Inr (Some d)
      | Inl e \<Rightarrow> (if e = ValueError then try_formats L v fmts else Inl e))"

definition parse_datetime_value :: "pylib \<Rightarrow> string option \<Rightarrow> error + datetime option" where
  "parse_datetime_value L value =
     (case value of
        None \<Rightarrow> Inr None
      | Some v \<Rightarrow>
          if v = [] then Inr None
          else try_formats L v [''%Y-%m-%d %H:%M'', ''%Y-%m-%d %H:%M:%S''])"

text \<open>\<open>_parse_datetime_parts\<close> on two strings, as the text parser calls it.\<close>

definition parse_datetime_parts :: "pylib \<Rightarrow> string \<Rightarrow> string \<Rightarrow> error + datetime option" where
  "parse_datetime_parts L date_value time_value =
     (if date_value = [] \<or> time_value = [] then Inr None
      else parse_datetime_value L (Some (strip date_value @ '' '' @ strip time_value)))"

section \<open>Paths\<close>

text \<open>
  \<open>Path(p).name\<close> and \<open>Path(p).stem\<close> for a POSIX path: the name is the last
  component that is neither empty nor a single dot, and the stem drops the last suffix
  of the name when the last dot is neither its first nor its last character.
\<close>

definition path_name :: "string \<Rightarrow> string" where
  "path_name p =
     (let comps = filter (\<lambda>c. c \<noteq> [] \<and> c \<noteq> ''.'') (split_on (CHR ''/'') p)
      in if comps = [] then [] else last comps)"

definition path_stem :: "string \<Rightarrow> string" where
  "path_stem p =
     (let name = path_name p; i = rfind (CHR ''.'') name
      in if 0 < i \<and> i < int (length name) - 1 then take (nat i) name else name)"

section \<open>The data model\<close>

record PiezometerMetadata =
  investigation_point :: string
  series_number :: "string option"
  reading_time :: "datetime option"
  installation_depth :: "pyfloat option"
  input_filename :: "string option"

text \<open>
  The class declares the reading's timestamp as a \<open>datetime\<close>, which Python does not
  enforce: the field holds whatever the parser stores, and the parser's value comes from
  a function that may return \<open>None\<close>. The field is modelled with that type.
\<close>

record PiezometerReading =
  reading_time :: "datetime option"
  pressure_mh2o :: "pyfloat option"
  temperature_c :: "pyfloat option"
  battery_pct :: "pyfloat option"

record ParsedPiezometer =
  metadata :: PiezometerMetadata
  readings :: "PiezometerReading list"

section \<open>The metadata line\<close>

definition normalize_key :: "string \<Rightarrow> string" where
  "normalize_key v = filter isalnum (lower v)"

definition meta_parts :: "string \<Rightarrow> string list" where
  "meta_parts line = map strip (filter (\<lambda>part. strip part \<noteq> []) (split_on (CHR '','') line))"

text \<open>The loop that fills the dictionary \<open>values\<close>; unpacking \<open>key, value\<close> needs
  exactly two pieces.\<close>

fun values_loop :: "string list \<Rightarrow> (string \<rightharpoonup> string) \<Rightarrow> error + (string \<rightharpoonup> string)" where
  "values_loop [] values = Inr values"
| "values_loop (part # rest) values =
     (if CHR '':'' \<notin> set part then values_loop rest values
      else (case split_once (CHR '':'') part of
              [key, v] \<Rightarrow> values_loop rest (values(normalize_key key \<mapsto> strip v))
            | _ \<Rightarrow> Inl ValueError))"

text \<open>\<open>a or b\<close> where \<open>a\<close> is an optional string: \<open>None\<close> and the empty string are
  both false.\<close>

definition or_str :: "string option \<Rightarrow> string \<Rightarrow> string" where
  "or_str a b = (case a of None \<Rightarrow> b | Some v \<Rightarrow> if v = [] then b else v)"

definition or_opt :: "string option \<Rightarrow> string option \<Rightarrow> string option" where
  "or_opt a b = (case a of None \<Rightarrow> b | Some v \<Rightarrow> if v = [] then b else Some v)"

definition parse_metadata_line :: "pylib \<Rightarrow> string \<Rightarrow> string \<Rightarrow> error + PiezometerMetadata" where
  "parse_metadata_line L line file_path =
     bindE (values_loop (meta_parts line) Map.empty) (\<lambda>values.
     bindE (parse_datetime_value L (values ''readingtime'')) (\<lambda>rt.
     bindE (coerce_float (or_opt (values ''installationdepthm'') (values ''installationdepth''))) (\<lambda>depth.
       Inr \<lparr> investigation_point = or_str (values ''measurepoint'') (path_stem file_path),
             series_number = values ''serienumber'',
             PiezometerMetadata.reading_time = rt,
             installation_depth = depth,
             input_filename = Some (path_name file_path) \<rparr>)))"

section \<open>The text file\<close>

definition HEADER_PREFIX :: string where
  "HEADER_PREFIX = ''date''"

text \<open>
  The file system as the parser meets it: \<open>fs p\<close> is the decoded text that reading the
  path \<open>p\<close> returns, and \<open>None\<close> when the read raises. A path that holds a NUL character
  is never read: \<open>open\<close> refuses it with ValueError. Any other failure (a missing file, a
  directory, a denied permission) is an OSError.
\<close>

definition read_error :: "string \<Rightarrow> error" where
  "read_error file_path = (if CHR 0x00 \<in> set file_path then ValueError else OSError)"

definition read_text :: "(string \<rightharpoonup> string) \<Rightarrow> string \<Rightarrow> error + string" where
  "read_text fs file_path =
     (case fs file_path of None \<Rightarrow> Inl (read_error file_path) | Some text \<Rightarrow> Inr text)"

definition text_lines :: "string \<Rightarrow> string list" where
  "text_lines text = map rstrip_nl (splitlines text)"

fun first_nonblank :: "string list \<Rightarrow> string" where
  "first_nonblank [] = []"
| "first_nonblank (line # rest) = (if strip line \<noteq> [] then strip line else first_nonblank rest)"

fun find_header_from :: "nat \<Rightarrow> string list \<Rightarrow> nat option" where
  "find_header_from idx [] = None"
| "find_header_from idx (line # rest) =
     (if startswith (lower (strip line)) HEADER_PREFIX then Some idx
      else find_header_from (idx + 1) rest)"

definition find_header :: "string list \<Rightarrow> nat option" where
  "find_header lines = find_header_from 0 lines"

definition data_start_of :: "string list \<Rightarrow> nat \<Rightarrow> error + nat" where
  "data_start_of lines header_index =
     (let data_start = header_index + 1
      in if data_start < length lines then
           bindE (index lines data_start) (\<lambda>l.
             let unit_line = strip l
             in if unit_line \<noteq> [] \<and> (CHR ''('' \<in> set unit_line \<or> startswith unit_line [CHR 0x09])
                then Inr (data_start + 1) else Inr data_start)
         else Inr data_start)"

text \<open>\<open>_coerce_float(parts[i]) if len(parts) > i else None\<close>.\<close>

definition field_float :: "string list \<Rightarrow> nat \<Rightarrow> error + pyfloat option" where
  "field_float parts i =
     (if length parts > i then bindE (index parts i) (\<lambda>p. coerce_float (Some p)) else Inr None)"

text \<open>One pass of the row loop: each \<open>continue\<close> leaves \<open>readings\<close> as it is.\<close>

definition row_step :: "pylib \<Rightarrow> string \<Rightarrow> PiezometerReading list \<Rightarrow> error + PiezometerReading list" where
  "row_step L line rs =
     (if strip line = [] then Inr rs
      else
        (let parts = split_on (CHR 0x09) line
         in if length parts < 2 then Inr rs
            else
              bindE (index parts 0) (\<lambda>p0.
              bindE (index parts 1) (\<lambda>p1.
              bindE (parse_datetime_parts L p0 p1) (\<lambda>rt.
                if rt = None then Inr rs
                else
                  bindE (field_float parts 2) (\<lambda>pressure.
                  bindE (field_float parts 3) (\<lambda>temperature.
                  bindE (field_float parts 4) (\<lambda>battery.
                    Inr (rs @ [\<lparr> reading_time = rt, pressure_mh2o = pressure,
                                  temperature_c = temperature, battery_pct = battery \<rparr>])))))))))"

fun rows_loop :: "pylib \<Rightarrow> string list \<Rightarrow> PiezometerReading list \<Rightarrow> error + PiezometerReading list" where
  "rows_loop L [] rs = Inr rs"
| "rows_loop L (line # rest) rs = bindE (row_step L line rs) (rows_loop L rest)"

definition parse_text_file :: "pylib \<Rightarrow> (string \<rightharpoonup> string) \<Rightarrow> string \<Rightarrow> error + ParsedPiezometer" where
  "parse_text_file L fs file_path =
     bindE (read_text fs file_path) (\<lambda>text.
       let lines = text_lines text;
           meta_line = first_nonblank lines
       in bindE (parse_metadata_line L meta_line file_path) (\<lambda>md.
          bindE (case find_header lines of
                   None \<Rightarrow> Inr []
                 | Some header_index \<Rightarrow>
                     bindE (data_start_of lines header_index) (\<lambda>data_start.
                       rows_loop L (drop data_start lines) []))
            (\<lambda>rs. Inr \<lparr> metadata = md, readings = rs \<rparr>)))"

text \<open>\<open>PVTParser.parse\<close>, and the module's \<open>parse\<close>, which calls it on a fresh parser.\<close>

definition parse :: "pylib \<Rightarrow> (string \<rightharpoonup> string) \<Rightarrow> string \<Rightarrow> error + ParsedPiezometer list" where
  "parse L fs file_path = bindE (parse_text_file L fs file_path) (\<lambda>r. Inr [r])"

section \<open>A reference instance of the timestamp library\<close>

text \<open>
  A small instance of the two library functions, used to run the model on concrete
  files. It accepts the zero-padded forms only: \<open>YYYY-MM-DD HH:MM\<close> and
  \<open>YYYY-MM-DD HH:MM:SS\<close> for the two formats, and a bare date \<open>YYYY-MM-DD\<close> for
  the ISO fallback.
\<close>

definition num2 :: "string \<Rightarrow> nat \<Rightarrow> nat option" where
  "num2 v i =
     (if i + 1 < length v \<and> isdigit (v ! i) \<and> isdigit (v ! (i + 1))
      then Some (digits_value (take 2 (drop i v))) else None)"

definition num4 :: "string \<Rightarrow> nat \<Rightarrow> nat option" where
  "num4 v i =
     (if i + 3 < length v \<and> list_all isdigit (take 4 (drop i v))
      then Some (digits_value (take 4 (drop i v))) else None)"

definition days_in_month :: "nat \<Rightarrow> nat \<Rightarrow> nat" where
  "days_in_month y m =
     (if m = 2 then (if y mod 4 = 0 \<and> (y mod 100 \<noteq> 0 \<or> y mod 400 = 0) then 29 else 28)
      else if m = 4 \<or> m = 6 \<or> m = 9 \<or> m = 11 then 30 else 31)"

definition ref_date :: "string \<Rightarrow> (nat \<times> nat \<times> nat) option" where
  "ref_date v =
     (case (num4 v 0, num2 v 5, num2 v 8) of
        (Some y, Some m, Some d) \<Rightarrow>
          if v ! 4 = CHR ''-'' \<and> v ! 7 = CHR ''-'' \<and> 1 \<le> y \<and> 1 \<le> m \<and> m \<le> 12
             \<and> 1 \<le> d \<and> d \<le> days_in_month y m
          then Some (y, m, d) else None
      | _ \<Rightarrow> None)"

definition ref_strptime :: "string \<Rightarrow> string \<Rightarrow> datetime option" where
  "ref_strptime v fmt =
     (case (ref_date v, num2 v 11, num2 v 14) of
        (Some (y, m, d), Some h, Some mi) \<Rightarrow>
          if v ! 10 = CHR '' '' \<and> v ! 13 = CHR '':'' \<and> h < 24 \<and> mi < 60 then
            (if fmt = ''%Y-%m-%d %H:%M'' \<and> length v = 16 then
               Some \<lparr> year = y, month = m, day = d, hour = h, minute = mi, second = 0,
                      microsecond = 0, utcoffset = None \<rparr>
             else if fmt = ''%Y-%m-%d %H:%M:%S'' \<and> length v = 19 \<and> v ! 16 = CHR '':'' then
               (case num2 v 17 of
                  Some s \<Rightarrow>
                    if s < 60 then
                      Some \<lparr> year = y, month = m, day = d, hour = h, minute = mi, second = s,
                             microsecond = 0, utcoffset = None \<rparr>
                    else None
                | None \<Rightarrow> None)
             else None)
          else None
      | _ \<Rightarrow> None)"

definition ref_fromisoformat :: "string \<Rightarrow> datetime option" where
  "ref_fromisoformat v =
     (case ref_date v of
        Some (y, m, d) \<Rightarrow>
          if length v = 10 then
            Some \<lparr> year = y, month = m, day = d, hour = 0, minute = 0, second = 0,
                   microsecond = 0, utcoffset = None \<rparr>
          else None
      | None \<Rightarrow> None)"

definition ref_lib :: pylib where
  "ref_lib = \<lparr> strptime = ref_strptime, fromisoformat = ref_fromisoformat \<rparr>"

section \<open>The separator rule in the specification's words\<close>

text \<open>
  When a string holds both a comma and a period, the separator that occurs last is the
  decimal separator and becomes a point; the other one is a thousands separator and is
  removed.
\<close>

definition is_separator :: "char \<Rightarrow> bool" where
  "is_separator c = (c = CHR '','' \<or> c = CHR ''.'')"

definition later_separator_decimal :: "string \<Rightarrow> string" where
  "later_separator_decimal s =
     (let decimal = last (filter is_separator s);
          thousands = (if decimal = CHR '','' then CHR ''.'' else CHR '','')
      in map (\<lambda>c. if c = decimal then CHR ''.'' else c) (filter (\<lambda>c. c \<noteq> thousands) s))"

definition comma_to_point :: "string \<Rightarrow> string" where
  "comma_to_point s = map (\<lambda>c. if c = CHR '','' then CHR ''.'' else c) s"

section \<open>Notions used to state the properties\<close>

text \<open>What one row adds to the readings: the row loop's pass on that row alone.\<close>

definition row_reading :: "pylib \<Rightarrow> string \<Rightarrow> PiezometerReading list" where
  "row_reading L line = (case row_step L line [] of Inr rs \<Rightarrow> rs | Inl e \<Rightarrow> [])"

text \<open>The lines the row loop runs over: \<open>lines[data_start:]\<close> when a header is found.\<close>

definition data_rows :: "string \<Rightarrow> string list" where
  "data_rows text =
     (let lines = text_lines text
      in case find_header lines of
           None \<Rightarrow> []
         | Some header_index \<Rightarrow>
             (case data_start_of lines header_index of
                Inr data_start \<Rightarrow> drop data_start lines
              | Inl e \<Rightarrow> []))"

text \<open>A token of the metadata line is a comma-separated part that holds a colon; its key
  is the normalized text before the first colon, its value the stripped text after it.\<close>

definition token_key :: "string \<Rightarrow> string option" where
  "token_key part =
     (if CHR '':'' \<in> set part then Some (normalize_key (takeWhile (\<lambda>c. c \<noteq> CHR '':'') part))
      else None)"

definition token_value :: "string \<Rightarrow> string" where
  "token_value part = strip (tl (dropWhile (\<lambda>c. c \<noteq> CHR '':'') part))"

definition tokens_with_key :: "string \<Rightarrow> string \<Rightarrow> string list" where
  "tokens_with_key line k = filter (\<lambda>part. token_key part = Some k) (meta_parts line)"

text \<open>What one token does to the dictionary \<open>values\<close>.\<close>

definition add_token :: "string \<Rightarrow> (string \<rightharpoonup> string) \<Rightarrow> (string \<rightharpoonup> string)" where
  "add_token part values =
     (case token_key part of None \<Rightarrow> values | Some k \<Rightarrow> values(k \<mapsto> token_value part))"

section \<open>An example file\<close>

text \<open>\<open>sep.join(xs)\<close>, to write the example down.\<close>

fun join :: "string \<Rightarrow> string list \<Rightarrow> string" where
  "join sep [] = []"
| "join sep [x] = x"
| "join sep (x # y # ys) = x @ sep @ join sep (y # ys)"

text \<open>
  A file with an unknown metadata key, an unparsable depth and reading time, no
  measure point, a units row that begins with a tab, a row of one field, a row with a
  bad time and a row with a non-numeric pressure.
\<close>

definition example_text :: string where
  "example_text = join [CHR 0x0A]
     [''Foo: bar, SerieNumber: 42, InstallationDepth: abc, ReadingTime: never'',
      join [CHR 0x09] [''Date'', ''Time'', ''Pressure''],
      join [CHR 0x09] [[], [], ''m''],
      join [CHR 0x09] [''2023-05-01'', ''10:05'', ''1,5''],
      ''lonely'',
      join [CHR 0x09] [''2023-05-01'', ''noon'', ''3''],
      join [CHR 0x09] [''2023-05-02'', ''11:00:30'', ''n/a'']]"

definition example_fs :: "string \<rightharpoonup> string" where
  "example_fs = (\<lambda>p. if p = ''site/BH-7.pvt'' then Some example_text else None)"

definition example_result :: ParsedPiezometer where
  "example_result =
     \<lparr> metadata =
         \<lparr> investigation_point = ''BH-7'', series_number = Some ''42'',
           PiezometerMetadata.reading_time = None, installation_depth = None,
           input_filename = Some ''BH-7.pvt'' \<rparr>,
       readings =
         [\<lparr> reading_time = Some \<lparr> year = 2023, month = 5, day = 1, hour = 10, minute = 5,
                                  second = 0, microsecond = 0, utcoffset = None \<rparr>,
            pressure_mh2o = Some (Finite (15 / 10)), temperature_c = None, battery_pct = None \<rparr>,
          \<lparr> reading_time = Some \<lparr> year = 2023, month = 5, day = 2, hour = 11, minute = 0,
                                  second = 30, microsecond = 0, utcoffset = None \<rparr>,
            pressure_mh2o = None, temperature_c = None, battery_pct = None \<rparr>] \<rparr>"

text \<open>
  A second file: the measure point is present with an empty value, and the line after
  the header holds a parenthesis (and would be a well-formed row otherwise).
\<close>

definition units_text :: string where
  "units_text = join [CHR 0x0A]
     [''MeasurePoint: , SerieNumber: 7'',
      join [CHR 0x09] [''Date'', ''Time'', ''Pressure''],
      join [CHR 0x09] [''2023-05-01'', ''10:00'', ''(1)''],
      join [CHR 0x09] [''2023-05-01'', ''10:05'', ''2'']]"

definition units_fs :: "string \<rightharpoonup> string" where
  "units_fs = (\<lambda>p. if p = ''logs/P12.pvt'' then Some units_text else None)"

definition units_result :: ParsedPiezometer where
  "units_result =
     \<lparr> metadata =
         \<lparr> investigation_point = ''P12'', series_number = Some ''7'',
           PiezometerMetadata.reading_time = None, installation_depth = None,
           input_filename = Some ''P12.pvt'' \<rparr>,
       readings =
         [\<lparr> reading_time = Some \<lparr> year = 2023, month = 5, day = 1, hour = 10, minute = 5,
                                  second = 0, microsecond = 0, utcoffset = None \<rparr>,
            pressure_mh2o = Some (Finite 2), temperature_c = None, battery_pct = None \<rparr>] \<rparr>"

text \<open>
  A third file: the line after the header holds a closing parenthesis and no opening
  one.
\<close>

definition closing_text :: string where
  "closing_text = join [CHR 0x0A]
     [join [CHR 0x09] [''Date'', ''Time'', ''Pressure''],
      join [CHR 0x09] [''2023-05-01'', ''10:00'', ''1)'']]"

definition closing_fs :: "string \<rightharpoonup> string" where
  "closing_fs = (\<lambda>p. if p = ''logs/P13.pvt'' then Some closing_text else None)"

definition closing_result :: ParsedPiezometer where
  "closing_result =
     \<lparr> metadata =
         \<lparr> investigation_point = ''P13'', series_number = None,
           PiezometerMetadata.reading_time = None, installation_depth = None,
           input_filename = Some ''P13.pvt'' \<rparr>,
       readings =
         [\<lparr> reading_time = Some \<lparr> year = 2023, month = 5, day = 1, hour = 10, minute = 0,
                                  second = 0, microsecond = 0, utcoffset = None \<rparr>,
            pressure_mh2o = None, temperature_c = None, battery_pct = None \<rparr>] \<rparr>"

section \<open>The parser over an explicit store\<close>

text \<open>
  The functions above read the code as a function of its inputs. To ask whether a call
  leaves anything behind for the next one, the code is read again here with its state in
  the open. The state holds the objects the code creates and assigns to, and the file
  system:
  \<^item> a parser instance, with its attribute dictionary (\<open>PVTParser()\<close> makes one with no
    attribute; the class attribute \<open>_HEADER_PREFIX\<close> is found when the instance has none
    of that name);
  \<^item> the dictionary \<open>values\<close> of \<open>_parse_metadata_line\<close>, filled by \<open>values[k] = v\<close>;
  \<^item> the list \<open>readings\<close> of \<open>_parse_text_file\<close>, filled by \<open>readings.append\<close>.
  An address is an index into the heap, and a new object takes the next index. The
  dataclass instances are built once and nothing assigns to them, so they stay values;
  the aggregate holds the address of its \<open>readings\<close> list, the object a caller could go on
  to change.
\<close>

datatype pyobj =
  Instance "string \<rightharpoonup> string"
| DictObj "string \<rightharpoonup> string"
| ListObj "PiezometerReading list"

record pystate =
  heap :: "pyobj list"
  files :: "string \<rightharpoonup> string"

record ParsedRef =
  ref_metadata :: PiezometerMetadata
  ref_readings :: nat

type_synonym 'a action = "pystate \<Rightarrow> (error + 'a) \<times> pystate"

definition returnS :: "'a \<Rightarrow> 'a action" where
  "returnS x s = (Inr x, s)"

definition bindS :: "'a action \<Rightarrow> ('a \<Rightarrow> 'b action) \<Rightarrow> 'b action" where
  "bindS m f s = (case m s of (Inl e, s') \<Rightarrow> (Inl e, s') | (Inr x, s') \<Rightarrow> f x s')"

text \<open>A computation that neither reads nor changes the state.\<close>

definition liftE :: "error + 'a \<Rightarrow> 'a action" where
  "liftE r s = (r, s)"

definition alloc :: "pyobj \<Rightarrow> nat action" where
  "alloc ob s = (Inr (length (heap s)), s\<lparr>heap := heap s @ [ob]\<rparr>)"

text \<open>\<open>d[k] = v\<close>, \<open>d.get(k)\<close> and \<open>xs.append(x)\<close> on the object at an address.\<close>

definition dict_setitem :: "nat \<Rightarrow> string \<Rightarrow> string \<Rightarrow> unit action" where
  "dict_setitem a k v s =
     (if a < length (heap s) then
        (case heap s ! a of
           DictObj m \<Rightarrow> (Inr (), s\<lparr>heap := (heap s)[a := DictObj (m(k \<mapsto> v))]\<rparr>)
         | _ \<Rightarrow> (Inl TypeError, s))
      else (Inl TypeError, s))"

definition dict_get :: "nat \<Rightarrow> string \<Rightarrow> string option action" where
  "dict_get a k s =
     (if a < length (heap s) then
        (case heap s ! a of
           DictObj m \<Rightarrow> (Inr (m k), s)
         | _ \<Rightarrow> (Inl TypeError, s))
      else (Inl TypeError, s))"

definition list_append :: "nat \<Rightarrow> PiezometerReading \<Rightarrow> unit action" where
  "list_append a x s =
     (if a < length (heap s) then
        (case heap s ! a of
           ListObj xs \<Rightarrow> (Inr (), s\<lparr>heap := (heap s)[a := ListObj (xs @ [x])]\<rparr>)
         | _ \<Rightarrow> (Inl TypeError, s))
      else (Inl TypeError, s))"

text \<open>\<open>self._HEADER_PREFIX\<close>: the instance's own attribute if it has one, else the
  class attribute.\<close>

definition get_HEADER_PREFIX :: "nat \<Rightarrow> string action" where
  "get_HEADER_PREFIX self s =
     (if self < length (heap s) then
        (case heap s ! self of
           Instance d \<Rightarrow>
             (case d ''_HEADER_PREFIX'' of Some v \<Rightarrow> (Inr v, s) | None \<Rightarrow> (Inr HEADER_PREFIX, s))
         | _ \<Rightarrow> (Inl TypeError, s))
      else (Inl TypeError, s))"

definition read_text_S :: "string \<Rightarrow> string action" where
  "read_text_S file_path s = (read_text (files s) file_path, s)"

fun values_loop_S :: "nat \<Rightarrow> string list \<Rightarrow> unit action" where
  "values_loop_S values [] s = (Inr (), s)"
| "values_loop_S values (part # rest) s =
     (if CHR '':'' \<notin> set part then values_loop_S values rest s
      else (case split_once (CHR '':'') part of
              [key, v] \<Rightarrow>
                (case dict_setitem values (normalize_key key) (strip v) s of
                   (Inl e, s') \<Rightarrow> (Inl e, s')
                 | (Inr u, s') \<Rightarrow> values_loop_S values rest s')
            | _ \<Rightarrow> (Inl ValueError, s)))"

definition parse_metadata_line_S :: "pylib \<Rightarrow> string \<Rightarrow> string \<Rightarrow> PiezometerMetadata action" where
  "parse_metadata_line_S L line file_path =
     bindS (alloc (DictObj Map.empty)) (\<lambda>values.
     bindS (values_loop_S values (meta_parts line)) (\<lambda>u.
     bindS (dict_get values ''serienumber'') (\<lambda>series.
     bindS (dict_get values ''readingtime'') (\<lambda>raw_time.
     bindS (liftE (parse_datetime_value L raw_time)) (\<lambda>rt.
     bindS (dict_get values ''measurepoint'') (\<lambda>point.
     bindS (dict_get values ''installationdepthm'') (\<lambda>depth_m.
     bindS (dict_get values ''installationdepth'') (\<lambda>depth_plain.
     bindS (liftE (coerce_float (or_opt depth_m depth_plain))) (\<lambda>depth.
       returnS \<lparr> investigation_point = or_str point (path_stem file_path),
                 series_number = series,
                 PiezometerMetadata.reading_time = rt,
                 installation_depth = depth,
                 input_filename = Some (path_name file_path) \<rparr>)))))))))"

fun find_header_S :: "nat \<Rightarrow> nat \<Rightarrow> string list \<Rightarrow> nat option action" where
  "find_header_S self idx [] s = (Inr None, s)"
| "find_header_S self idx (line # rest) s =
     (case get_HEADER_PREFIX self s of
        (Inl e, s') \<Rightarrow> (Inl e, s')
      | (Inr prefix, s') \<Rightarrow>
          if startswith (lower (strip line)) prefix then (Inr (Some idx), s')
          else find_header_S self (idx + 1) rest s')"

definition row_step_S :: "pylib \<Rightarrow> nat \<Rightarrow> string \<Rightarrow> unit action" where
  "row_step_S L rs line =
     (if strip line = [] then returnS ()
      else
        (let parts = split_on (CHR 0x09) line
         in if length parts < 2 then returnS ()
            else
              bindS (liftE (index parts 0)) (\<lambda>p0.
              bindS (liftE (index parts 1)) (\<lambda>p1.
              bindS (liftE (parse_datetime_parts L p0 p1)) (\<lambda>rt.
                if rt = None then returnS ()
                else
                  bindS (liftE (field_float parts 2)) (\<lambda>pressure.
                  bindS (liftE (field_float parts 3)) (\<lambda>temperature.
                  bindS (liftE (field_float parts 4)) (\<lambda>battery.
                    list_append rs \<lparr> reading_time = rt, pressure_mh2o = pressure,
                                      temperature_c = temperature, battery_pct = battery \<rparr>))))))))"

fun rows_loop_S :: "pylib \<Rightarrow> nat \<Rightarrow> string list \<Rightarrow> unit action" where
  "rows_loop_S L rs [] s = (Inr (), s)"
| "rows_loop_S L rs (line # rest) s =
     (case row_step_S L rs line s of
        (Inl e, s') \<Rightarrow> (Inl e, s')
      | (Inr u, s') \<Rightarrow> rows_loop_S L rs rest s')"

definition parse_text_file_S :: "pylib \<Rightarrow> nat \<Rightarrow> string \<Rightarrow> ParsedRef action" where
  "parse_text_file_S L self file_path =
     bindS (read_text_S file_path) (\<lambda>text.
       let lines = text_lines text;
           meta_line = first_nonblank lines
       in bindS (parse_metadata_line_S L meta_line file_path) (\<lambda>md.
          bindS (find_header_S self 0 lines) (\<lambda>header_index.
          bindS (alloc (ListObj [])) (\<lambda>rs.
          bindS (case header_index of
                   None \<Rightarrow> returnS ()
                 | Some h \<Rightarrow>
                     bindS (liftE (data_start_of lines h)) (\<lambda>data_start.
                       rows_loop_S L rs (drop data_start lines)))
            (\<lambda>u. returnS \<lparr> ref_metadata = md, ref_readings = rs \<rparr>)))))"

text \<open>\<open>PVTParser.parse\<close> on a parser instance, and the module's \<open>parse\<close>, which makes
  the instance first.\<close>

definition PVTParser_parse_S :: "pylib \<Rightarrow> nat \<Rightarrow> string \<Rightarrow> ParsedRef list action" where
  "PVTParser_parse_S L self file_path =
     bindS (parse_text_file_S L self file_path) (\<lambda>r. returnS [r])"

definition parse_S :: "pylib \<Rightarrow> string \<Rightarrow> ParsedRef list action" where
  "parse_S L file_path =
     bindS (alloc (Instance Map.empty)) (\<lambda>self. PVTParser_parse_S L self file_path)"

text \<open>The aggregate a reference stands for in a state, and the outcome of a call read
  that way: what \<open>==\<close> on the dataclasses compares.\<close>

definition load :: "pystate \<Rightarrow> ParsedRef \<Rightarrow> ParsedPiezometer" where
  "load s r =
     \<lparr> metadata = ref_metadata r,
       readings = (if ref_readings r < length (heap s)
                   then (case heap s ! ref_readings r of ListObj xs \<Rightarrow> xs | _ \<Rightarrow> [])
                   else []) \<rparr>"

definition loaded :: "(error + ParsedRef list) \<times> pystate \<Rightarrow> error + ParsedPiezometer list" where
  "loaded out = (case out of (Inl e, s) \<Rightarrow> Inl e | (Inr rs, s) \<Rightarrow> Inr (map (load s) rs))"

definition example_state :: pystate where
  "example_state = \<lparr> heap = [Instance Map.empty, ListObj []], files = example_fs \<rparr>"

definition other_state :: pystate where
  "other_state = \<lparr> heap = [], files = example_fs(''site/other.pvt'' \<mapsto> ''Date'') \<rparr>"

section \<open>Facts about the text operations\<close>

lemmas char_eval = code_def char_of_def bit_Suc_0_iff

lemmas line_eval = isspace_def isdigit_def isalnum_def strip_def rstrip_nl_def lower_def
  lower_char_def startswith_def split_once_def HEADER_PREFIX_def

lemmas text_eval = line_eval islinebreak_def splitlines_def text_lines_def

lemmas float_eval = clean_number_def coerce_float_def float_str_def parse_unsigned_def
  parse_exponent_def replace_def rfind_def float_isspace_def digits_value_def round_overflow_def
  overflow_threshold_def scale10_def isfinite_def negate_def

lemmas time_eval = ref_lib_def ref_strptime_def ref_fromisoformat_def ref_date_def num2_def num4_def
  days_in_month_def call_strptime_def call_fromisoformat_def coerce_datetime_def
  parse_datetime_value_def parse_datetime_parts_def

lemmas meta_eval = parse_metadata_line_def meta_parts_def normalize_key_def or_str_def or_opt_def
  path_name_def path_stem_def

lemma replace_delete: "replace c [] s = filter (\<lambda>x. x \<noteq> c) s"
  by (induction s) (simp_all add: replace_def)

lemma replace_char: "replace c [d] s = map (\<lambda>x. if x = c then d else x) s"
  by (induction s) (simp_all add: replace_def)

lemma rfind_from_snoc:
  "rfind_from c i best (xs @ [x]) = (if x = c then i + int (length xs) else rfind_from c i best xs)"
  by (induction xs arbitrary: i best) (simp_all add: algebra_simps)

lemma rfind_snoc: "rfind c (xs @ [x]) = (if x = c then int (length xs) else rfind c xs)"
  by (simp add: rfind_def rfind_from_snoc)

lemma rfind_Nil: "rfind c [] = - 1"
  by (simp add: rfind_def)

lemma rfind_less: "rfind c s < int (length s)"
  by (induction s rule: rev_induct) (simp_all add: rfind_Nil rfind_snoc)

lemma count_dropWhile: "\<not> P c \<Longrightarrow> count_list (dropWhile P xs) c = count_list xs c"
  by (induction xs) auto

lemma count_filter_other: "c \<noteq> d \<Longrightarrow> count_list (filter (\<lambda>x. x \<noteq> d) xs) c = count_list xs c"
  by (induction xs) auto

lemma count_tl_other: "xs \<noteq> [] \<Longrightarrow> hd xs \<noteq> c \<Longrightarrow> count_list (tl xs) c = count_list xs c"
  by (cases xs) auto

lemma point_not_digit: "\<not> isdigit (CHR ''.'')"
  by (simp add: isdigit_def char_eval)

lemma point_not_float_space: "\<not> float_isspace (CHR ''.'')"
  by (simp add: float_isspace_def char_eval)

lemma point_not_space: "\<not> isspace (CHR ''.'')"
  by (simp add: isspace_def char_eval)

lemma comma_not_space: "\<not> isspace (CHR '','')"
  by (simp add: isspace_def char_eval)

lemma count_strip: "\<not> isspace c \<Longrightarrow> count_list (strip s) c = count_list s c"
  by (simp add: strip_def count_dropWhile)

lemma set_strip: "\<not> isspace c \<Longrightarrow> c \<in> set (strip s) \<longleftrightarrow> c \<in> set s"
  using count_strip [of c s] by (metis count_list_0_iff)

section \<open>Numeric coercion: the separator rule\<close>

text \<open>Comparing the two \<open>rfind\<close> results asks which separator occurs last.\<close>

lemma rfind_later:
  "CHR '','' \<in> set s \<or> CHR ''.'' \<in> set s \<Longrightarrow>
   (rfind (CHR '','') s > rfind (CHR ''.'') s) = (last (filter is_separator s) = CHR '','')"
proof (induction s rule: rev_induct)
  case Nil
  then show ?case by simp
next
  case (snoc x xs)
  show ?case
  proof (cases "is_separator x")
    case True
    then show ?thesis
      using rfind_less [of "CHR '',''" xs] rfind_less [of "CHR ''.''" xs]
      by (auto simp: rfind_snoc is_separator_def)
  next
    case False
    then have "CHR '','' \<in> set xs \<or> CHR ''.'' \<in> set xs"
      using snoc.prems by (auto simp: is_separator_def)
    then show ?thesis
      using snoc.IH False by (auto simp: rfind_snoc is_separator_def)
  qed
qed

lemma clean_number_both:
  assumes "CHR '','' \<in> set (strip v)" "CHR ''.'' \<in> set (strip v)"
  shows "clean_number v = later_separator_decimal (strip v)"
proof (cases "last (filter is_separator (strip v)) = CHR '',''")
  case True
  then show ?thesis
    using assms rfind_later [of "strip v"]
    by (simp add: clean_number_def later_separator_decimal_def replace_delete replace_char)
next
  case False
  have "last (filter is_separator (strip v)) \<in> set (filter is_separator (strip v))"
    using assms by (intro last_in_set) (auto simp: filter_empty_conv is_separator_def)
  then have d: "last (filter is_separator (strip v)) = CHR ''.''"
    using False by (auto simp: is_separator_def)
  have "map (\<lambda>c. if c = CHR ''.'' then CHR ''.'' else c) xs = xs" for xs :: string
    by (induction xs) simp_all
  then show ?thesis
    using assms rfind_later [of "strip v"] d
    by (simp add: clean_number_def later_separator_decimal_def replace_delete)
qed

lemma clean_number_comma_only:
  "CHR '','' \<in> set (strip v) \<Longrightarrow> CHR ''.'' \<notin> set (strip v) \<Longrightarrow>
   clean_number v = comma_to_point (strip v)"
  by (simp add: clean_number_def comma_to_point_def replace_char)

lemma float_str_error: "float_str s = Inl e \<Longrightarrow> e = ValueError"
  by (auto simp: float_str_def Let_def split: if_splits option.splits)

lemma coerce_float_returns: "\<exists>r. coerce_float value = Inr r"
  by (auto simp: coerce_float_def split: option.splits sum.splits dest: float_str_error)

lemma coerce_float_finite: "coerce_float value = Inr (Some x) \<Longrightarrow> isfinite x"
  by (auto simp: coerce_float_def split: option.splits sum.splits if_splits)

lemma coerce_float_examples:
  "coerce_float (Some ''1.234,56'') = Inr (Some (Finite (123456 / 100)))"
  "coerce_float (Some ''1,234.56'') = Inr (Some (Finite (123456 / 100)))"
  "coerce_float (Some ''12,5'') = Inr (Some (Finite (125 / 10)))"
  "coerce_float (Some ''abc'') = Inr None"
  "coerce_float (Some ''NaN'') = Inr None"
  "coerce_float (Some ''Infinity'') = Inr None"
  by (simp_all add: float_eval line_eval char_eval)

text \<open>
  C1. When a string holds both a comma and a period, the cleanup takes the separator
  that occurs last as the decimal separator and removes the other one, so that both
  \<open>1.234,56\<close> and \<open>1,234.56\<close> coerce to 1234.56; with a comma and no period the comma
  is the decimal separator, so that \<open>12,5\<close> coerces to 12.5. A null input, the
  unparsable \<open>abc\<close> and the non-finite \<open>NaN\<close> and \<open>Infinity\<close> give null. The coercion
  returns for every input, and what it returns is null or a finite number.
\<close>

theorem coerce_float_locale_separators:
  "(CHR '','' \<in> set (strip v) \<and> CHR ''.'' \<in> set (strip v) \<longrightarrow>
      clean_number v = later_separator_decimal (strip v))
   \<and> (CHR '','' \<in> set (strip v) \<and> CHR ''.'' \<notin> set (strip v) \<longrightarrow>
      clean_number v = comma_to_point (strip v))
   \<and> coerce_float (Some ''1.234,56'') = Inr (Some (Finite (123456 / 100)))
   \<and> coerce_float (Some ''1,234.56'') = Inr (Some (Finite (123456 / 100)))
   \<and> coerce_float (Some ''12,5'') = Inr (Some (Finite (125 / 10)))
   \<and> coerce_float None = Inr None
   \<and> coerce_float (Some ''abc'') = Inr None
   \<and> coerce_float (Some ''NaN'') = Inr None
   \<and> coerce_float (Some ''Infinity'') = Inr None
   \<and> (\<exists>r. coerce_float value = Inr r)
   \<and> (\<forall>x. coerce_float value = Inr (Some x) \<longrightarrow> isfinite x)"
proof -
  have "coerce_float None = Inr None"
    by (simp add: coerce_float_def)
  then show ?thesis
    using clean_number_both [of v] clean_number_comma_only [of v] coerce_float_examples
      coerce_float_returns [of "value"] coerce_float_finite [of "value"]
    by blast
qed

theorem coerce_float_locale_separators_witness:
  "CHR '','' \<in> set (strip ''1.234,56'') \<and> CHR ''.'' \<in> set (strip ''1.234,56'')
   \<and> clean_number ''1.234,56'' = later_separator_decimal (strip ''1.234,56'')
   \<and> later_separator_decimal (strip ''1.234,56'') = ''1234.56''
   \<and> CHR '','' \<in> set (strip ''12,5'') \<and> CHR ''.'' \<notin> set (strip ''12,5'')
   \<and> clean_number ''12,5'' = comma_to_point (strip ''12,5'')
   \<and> comma_to_point (strip ''12,5'') = ''12.5''
   \<and> coerce_float (Some ''12,5'') = Inr (Some (Finite (125 / 10)))
   \<and> isfinite (Finite (125 / 10))"
proof -
  have a: "strip ''1.234,56'' = ''1.234,56''" and b: "strip ''12,5'' = ''12,5''"
    by (simp_all add: strip_def isspace_def char_eval)
  have c: "later_separator_decimal ''1.234,56'' = ''1234.56''"
    by (simp add: later_separator_decimal_def is_separator_def)
  have d: "comma_to_point ''12,5'' = ''12.5''"
    by (simp add: comma_to_point_def)
  show ?thesis
    using coerce_float_locale_separators [of "''1.234,56''" "Some ''12,5''"]
      coerce_float_locale_separators [of "''12,5''" "Some ''12,5''"]
    by (simp add: a b c d isfinite_def)
qed

section \<open>Numeric coercion: commas without a period\<close>

lemma lower_point: "CHR ''.'' \<in> set b \<Longrightarrow> CHR ''.'' \<in> set (lower b)"
  by (force simp: lower_def lower_char_def char_eval)

lemma parse_exponent_no_point:
  assumes "parse_exponent r = Some e"
  shows "count_list r (CHR ''.'') = 0"
proof (cases r)
  case Nil
  then show ?thesis by simp
next
  case (Cons c r1)
  define ds where "ds = (if r1 \<noteq> [] \<and> (hd r1 = CHR ''-'' \<or> hd r1 = CHR ''+'') then tl r1 else r1)"
  have c: "c = CHR ''e'' \<or> c = CHR ''E''" and ds: "list_all isdigit ds"
    using assms Cons by (auto simp: parse_exponent_def Let_def ds_def split: if_splits)
  have "CHR ''.'' \<notin> set ds"
    using ds point_not_digit by (auto simp: list_all_iff)
  moreover have "set r1 \<subseteq> set ds \<union> {CHR ''-'', CHR ''+''}"
    by (cases r1) (auto simp: ds_def)
  ultimately have "CHR ''.'' \<notin> set r1" by auto
  then show ?thesis using c Cons by auto
qed

text \<open>A string that \<open>float\<close> accepts holds at most one point.\<close>

lemma parse_unsigned_points:
  assumes "parse_unsigned b = Some x"
  shows "count_list b (CHR ''.'') \<le> 1"
proof -
  define r1 where "r1 = dropWhile isdigit b"
  have b: "count_list b (CHR ''.'') = count_list r1 (CHR ''.'')"
    by (simp add: r1_def count_dropWhile point_not_digit)
  show ?thesis
  proof (cases "takeWhile isdigit b = []
      \<and> (if r1 \<noteq> [] \<and> hd r1 = CHR ''.'' then takeWhile isdigit (tl r1) else []) = []")
    case True
    then have "lower b = ''inf'' \<or> lower b = ''infinity'' \<or> lower b = ''nan''"
      using assms by (auto simp: parse_unsigned_def Let_def r1_def split: if_splits)
    then have "CHR ''.'' \<notin> set b"
      using lower_point [of b] by auto
    then show ?thesis by simp
  next
    case False
    then obtain e where e:
      "parse_exponent (if r1 \<noteq> [] \<and> hd r1 = CHR ''.'' then dropWhile isdigit (tl r1) else r1) = Some e"
      using assms by (auto simp: parse_unsigned_def Let_def r1_def split: if_splits option.splits)
    show ?thesis
    proof (cases "r1 \<noteq> [] \<and> hd r1 = CHR ''.''")
      case True
      then obtain r where r: "r1 = CHR ''.'' # r" by (cases r1) auto
      have "count_list (dropWhile isdigit r) (CHR ''.'') = 0"
        using e r parse_exponent_no_point by auto
      then have "count_list r (CHR ''.'') = 0"
        by (simp add: count_dropWhile point_not_digit)
      then show ?thesis using b r by simp
    next
      case False
      then have "count_list r1 (CHR ''.'') = 0"
        using e parse_exponent_no_point by auto
      then show ?thesis using b by simp
    qed
  qed
qed

lemma float_str_points:
  assumes "float_str s = Inr x"
  shows "count_list s (CHR ''.'') \<le> 1"
proof -
  define u where
    "u = rev (dropWhile float_isspace (rev (dropWhile float_isspace (filter (\<lambda>c. c \<noteq> CHR ''_'') s))))"
  define b where "b = (if u \<noteq> [] \<and> (hd u = CHR ''-'' \<or> hd u = CHR ''+'') then tl u else u)"
  have cu: "count_list u (CHR ''.'') = count_list s (CHR ''.'')"
    by (simp add: u_def count_dropWhile point_not_float_space count_filter_other)
  have cb: "count_list b (CHR ''.'') = count_list u (CHR ''.'')"
    by (auto simp: b_def count_tl_other)
  obtain y where "parse_unsigned b = Some y"
    using assms by (auto simp: float_str_def Let_def u_def b_def split: if_splits option.splits)
  then show ?thesis
    using parse_unsigned_points cu cb by fastforce
qed

lemma count_comma_to_point:
  "CHR ''.'' \<notin> set s \<Longrightarrow> count_list (comma_to_point s) (CHR ''.'') = count_list s (CHR '','')"
  by (induction s) (auto simp: comma_to_point_def)

lemma coerce_float_many_commas:
  assumes "2 \<le> count_list v (CHR '','')" "CHR ''.'' \<notin> set v"
  shows "coerce_float (Some v) = Inr None"
proof -
  have c: "CHR '','' \<in> set (strip v)"
    using assms(1) set_strip [OF comma_not_space, of v] count_list_0_iff [of v "CHR '',''"] by auto
  have p: "CHR ''.'' \<notin> set (strip v)"
    using assms(2) set_strip [OF point_not_space, of v] by simp
  have "clean_number v = comma_to_point (strip v)"
    using c p by (rule clean_number_comma_only)
  moreover have "count_list (comma_to_point (strip v)) (CHR ''.'') \<ge> 2"
    using assms(1) p by (simp add: count_comma_to_point count_strip comma_not_space)
  ultimately have "\<not> (\<exists>x. float_str (clean_number v) = Inr x)"
    using float_str_points by fastforce
  then show ?thesis
    by (cases "float_str (clean_number v)")
       (auto simp: coerce_float_def float_str_def Let_def split: option.splits if_splits)
qed

text \<open>
  C10. A string with one or more commas and no period has every comma replaced by a
  point before the numeric parse. So a lone comma is a decimal separator, never a
  thousands separator (\<open>1,234\<close> coerces to 1.234), and a string with two or more commas
  and no period, such as \<open>1,2,3\<close>, coerces to null.
\<close>

theorem coerce_float_comma_without_period:
  "(CHR '','' \<in> set (strip v) \<and> CHR ''.'' \<notin> set (strip v) \<longrightarrow>
      clean_number v = comma_to_point (strip v)
      \<and> coerce_float (Some v) =
          (case float_str (comma_to_point (strip v)) of
             Inl e \<Rightarrow> Inr None
           | Inr x \<Rightarrow> if isfinite x then Inr (Some x) else Inr None))
   \<and> coerce_float (Some ''1,234'') = Inr (Some (Finite (1234 / 1000)))
   \<and> (2 \<le> count_list v (CHR '','') \<and> CHR ''.'' \<notin> set v \<longrightarrow> coerce_float (Some v) = Inr None)
   \<and> coerce_float (Some ''1,2,3'') = Inr None"
proof -
  have "coerce_float (Some v) =
          (case float_str (clean_number v) of
             Inl e \<Rightarrow> Inr None
           | Inr x \<Rightarrow> if isfinite x then Inr (Some x) else Inr None)"
    by (auto simp: coerce_float_def split: sum.splits dest: float_str_error)
  moreover have "coerce_float (Some ''1,234'') = Inr (Some (Finite (1234 / 1000)))"
    by (simp add: float_eval line_eval char_eval)
  moreover have "coerce_float (Some ''1,2,3'') = Inr None"
    by (simp add: float_eval line_eval char_eval)
  ultimately show ?thesis
    using clean_number_comma_only [of v] coerce_float_many_commas [of v] by simp
qed

theorem coerce_float_comma_without_period_witness:
  "CHR '','' \<in> set (strip ''1,2,3'') \<and> CHR ''.'' \<notin> set (strip ''1,2,3'')
   \<and> clean_number ''1,2,3'' = ''1.2.3''
   \<and> 2 \<le> count_list ''1,2,3'' (CHR '','') \<and> CHR ''.'' \<notin> set ''1,2,3''
   \<and> coerce_float (Some ''1,2,3'') = Inr None"
proof -
  have a: "strip ''1,2,3'' = ''1,2,3''"
    by (simp add: strip_def isspace_def char_eval)
  have b: "comma_to_point ''1,2,3'' = ''1.2.3''"
    by (simp add: comma_to_point_def)
  have h1: "CHR '','' \<in> set (strip ''1,2,3'') \<and> CHR ''.'' \<notin> set (strip ''1,2,3'')"
    by (simp add: a)
  have h2: "2 \<le> count_list ''1,2,3'' (CHR '','') \<and> CHR ''.'' \<notin> set ''1,2,3''"
    by simp
  show ?thesis
    using coerce_float_comma_without_period [of "''1,2,3''"] h1 h2
    unfolding a b by blast
qed

section \<open>The parser returns\<close>

lemma bindE_Inr [simp]: "bindE (Inr x) f = f x"
  by (simp add: bindE_def)

lemma bindE_Inl [simp]: "bindE (Inl e) f = Inl e"
  by (simp add: bindE_def)

lemma index_in_range: "i < length xs \<Longrightarrow> index xs i = Inr (xs ! i)"
  by (simp add: index_def)

lemma coerce_datetime_returns: "\<exists>r. coerce_datetime L v = Inr r"
  by (auto simp: coerce_datetime_def call_fromisoformat_def split: option.splits)

lemma try_formats_returns: "\<exists>r. try_formats L v fmts = Inr r"
  by (induction fmts) (auto simp: coerce_datetime_returns call_strptime_def split: option.splits)

lemma parse_datetime_value_returns: "\<exists>r. parse_datetime_value L value = Inr r"
  by (cases "value") (simp_all add: parse_datetime_value_def try_formats_returns del: try_formats.simps)

lemma parse_datetime_parts_returns: "\<exists>r. parse_datetime_parts L d t = Inr r"
  by (simp add: parse_datetime_parts_def parse_datetime_value_returns)

lemma field_float_returns: "\<exists>r. field_float parts i = Inr r"
  by (simp add: field_float_def index_in_range coerce_float_returns)

text \<open>Each pass of the row loop returns, and appends what the row alone yields.\<close>

lemma row_step_cases:
  obtains (skip) "\<And>rs. row_step L line rs = Inr rs"
  | (keep) r where "\<And>rs. row_step L line rs = Inr (rs @ [r])" "PiezometerReading.reading_time r \<noteq> None"
proof (cases "strip line = [] \<or> length (split_on (CHR 0x09) line) < 2")
  case True
  then have "\<And>rs. row_step L line rs = Inr rs"
    by (auto simp: row_step_def Let_def)
  then show ?thesis by (rule skip)
next
  case False
  define parts where "parts = split_on (CHR 0x09) line"
  have len: "0 < length parts" "1 < length parts"
    using False by (auto simp: parts_def)
  obtain rt where rt: "parse_datetime_parts L (parts ! 0) (parts ! 1) = Inr rt"
    using parse_datetime_parts_returns by blast
  obtain pr te ba where f: "field_float parts 2 = Inr pr" "field_float parts 3 = Inr te"
      "field_float parts 4 = Inr ba"
    using field_float_returns by metis
  show ?thesis
  proof (cases rt)
    case None
    have "\<And>rs. row_step L line rs = Inr rs"
      using False len rt None
      by (simp add: row_step_def Let_def parts_def [symmetric] index_in_range)
    then show ?thesis by (rule skip)
  next
    case (Some d)
    have "\<And>rs. row_step L line rs = Inr (rs @ [\<lparr> reading_time = rt, pressure_mh2o = pr,
                                  temperature_c = te, battery_pct = ba \<rparr>])"
      using False len rt Some f
      by (simp add: row_step_def Let_def parts_def [symmetric] index_in_range)
    then show ?thesis
      using Some by (intro keep) auto
  qed
qed

lemma row_step_append: "row_step L line rs = Inr (rs @ row_reading L line)"
  by (cases L line rule: row_step_cases) (simp_all add: row_reading_def)

lemma row_reading_length: "length (row_reading L line) \<le> 1"
  by (cases L line rule: row_step_cases) (simp_all add: row_reading_def)

lemma row_reading_time: "r \<in> set (row_reading L line) \<Longrightarrow> PiezometerReading.reading_time r \<noteq> None"
  by (cases L line rule: row_step_cases) (simp_all add: row_reading_def)

lemma rows_loop_concat: "rows_loop L lines rs = Inr (rs @ concat (map (row_reading L) lines))"
  by (induction lines arbitrary: rs) (simp_all add: row_step_append)

lemma row_reading_few_fields:
  "length (split_on (CHR 0x09) line) < 2 \<Longrightarrow> row_reading L line = []"
  by (simp add: row_reading_def row_step_def Let_def)

lemma row_reading_blank: "strip line = [] \<Longrightarrow> row_reading L line = []"
  by (simp add: row_reading_def row_step_def)

lemma row_reading_no_timestamp:
  assumes "2 \<le> length (split_on (CHR 0x09) line)"
    and "parse_datetime_parts L (split_on (CHR 0x09) line ! 0) (split_on (CHR 0x09) line ! 1) = Inr None"
  shows "row_reading L line = []"
proof -
  have "0 < length (split_on (CHR 0x09) line)" "1 < length (split_on (CHR 0x09) line)"
    using assms(1) by auto
  then show ?thesis
    using assms by (simp add: row_reading_def row_step_def Let_def index_in_range)
qed

section \<open>The metadata dictionary and the whole parse\<close>

lemma split_once_present:
  "c \<in> set s \<Longrightarrow> split_once c s = [takeWhile (\<lambda>x. x \<noteq> c) s, tl (dropWhile (\<lambda>x. x \<noteq> c) s)]"
  by (simp add: split_once_def)

lemma values_loop_fold: "values_loop parts m = Inr (fold add_token parts m)"
  by (induction parts arbitrary: m)
     (simp_all add: add_token_def token_key_def token_value_def split_once_present)

lemma fold_add_token_lookup:
  "fold add_token parts m k =
     (if filter (\<lambda>p. token_key p = Some k) parts = [] then m k
      else Some (token_value (last (filter (\<lambda>p. token_key p = Some k) parts))))"
proof (induction parts arbitrary: m rule: rev_induct)
  case Nil
  then show ?case by simp
next
  case (snoc x xs)
  show ?case
  proof (cases "token_key x = Some k")
    case True
    then show ?thesis
      by (simp add: add_token_def)
  next
    case False
    then show ?thesis
      using snoc [of m] by (cases "token_key x") (auto simp: add_token_def)
  qed
qed

lemma parse_metadata_line_returns:
  "\<exists>rt depth. parse_metadata_line L line file_path =
     Inr \<lparr> investigation_point =
             or_str (fold add_token (meta_parts line) Map.empty ''measurepoint'') (path_stem file_path),
           series_number = fold add_token (meta_parts line) Map.empty ''serienumber'',
           PiezometerMetadata.reading_time = rt,
           installation_depth = depth,
           input_filename = Some (path_name file_path) \<rparr>"
proof -
  obtain rt where "parse_datetime_value L (fold add_token (meta_parts line) Map.empty ''readingtime'') = Inr rt"
    using parse_datetime_value_returns by blast
  moreover obtain depth where "coerce_float (or_opt (fold add_token (meta_parts line) Map.empty ''installationdepthm'')
      (fold add_token (meta_parts line) Map.empty ''installationdepth'')) = Inr depth"
    using coerce_float_returns by blast
  ultimately show ?thesis
    by (simp add: parse_metadata_line_def values_loop_fold)
qed

lemma data_start_of_returns: "\<exists>n. data_start_of lines h = Inr n"
  by (simp add: data_start_of_def Let_def index_in_range)

lemma parse_text_file_returns:
  assumes "fs file_path = Some text"
  shows "\<exists>md. parse_metadata_line L (first_nonblank (text_lines text)) file_path = Inr md
    \<and> parse_text_file L fs file_path =
        Inr \<lparr> metadata = md, readings = concat (map (row_reading L) (data_rows text)) \<rparr>"
proof -
  obtain md where md: "parse_metadata_line L (first_nonblank (text_lines text)) file_path = Inr md"
    using parse_metadata_line_returns by blast
  have "parse_text_file L fs file_path =
        Inr \<lparr> metadata = md, readings = concat (map (row_reading L) (data_rows text)) \<rparr>"
  proof (cases "find_header (text_lines text)")
    case None
    then show ?thesis
      using assms md by (simp add: parse_text_file_def read_text_def data_rows_def Let_def)
  next
    case (Some h)
    obtain n where "data_start_of (text_lines text) h = Inr n"
      using data_start_of_returns by blast
    then show ?thesis
      using assms md Some
      by (simp add: parse_text_file_def read_text_def data_rows_def Let_def rows_loop_concat)
  qed
  then show ?thesis using md by blast
qed

lemma parse_text_file_unreadable:
  "fs file_path = None \<Longrightarrow> parse_text_file L fs file_path = Inl (read_error file_path)"
  by (simp add: parse_text_file_def read_text_def)

text \<open>Lists of at most one element, concatenated: the elements in the order of their sources.\<close>

lemma concat_singletons_indices:
  assumes "\<And>x. length (f x) \<le> 1"
  shows "concat (map f xs) =
     map (\<lambda>i. hd (f (xs ! i))) (filter (\<lambda>i. f (xs ! i) \<noteq> []) [0..<length xs])"
proof (induction xs rule: rev_induct)
  case Nil
  then show ?case by simp
next
  case (snoc x xs)
  have a: "filter (\<lambda>i. f ((xs @ [x]) ! i) \<noteq> []) [0..<length xs] = filter (\<lambda>i. f (xs ! i) \<noteq> []) [0..<length xs]"
    by (intro filter_cong) (auto simp: nth_append)
  have b: "map (\<lambda>i. hd (f ((xs @ [x]) ! i))) (filter (\<lambda>i. f (xs ! i) \<noteq> []) [0..<length xs])
         = map (\<lambda>i. hd (f (xs ! i))) (filter (\<lambda>i. f (xs ! i) \<noteq> []) [0..<length xs])"
    by (intro map_cong) (auto simp: nth_append)
  have c: "f x = (if f x = [] then [] else [hd (f x)])"
    using assms [of x] by (cases "f x") auto
  show ?case
    using snoc c by (auto simp: a b)
qed

section \<open>The example file, evaluated\<close>

lemma example_lines: "text_lines example_text =
     [''Foo: bar, SerieNumber: 42, InstallationDepth: abc, ReadingTime: never'',
      join [CHR 0x09] [''Date'', ''Time'', ''Pressure''],
      join [CHR 0x09] [[], [], ''m''],
      join [CHR 0x09] [''2023-05-01'', ''10:05'', ''1,5''],
      ''lonely'',
      join [CHR 0x09] [''2023-05-01'', ''noon'', ''3''],
      join [CHR 0x09] [''2023-05-02'', ''11:00:30'', ''n/a'']]"
  by (simp add: example_text_def text_eval char_eval)

lemma example_meta_line: "first_nonblank (text_lines example_text) =
     ''Foo: bar, SerieNumber: 42, InstallationDepth: abc, ReadingTime: never''"
  by (simp add: example_lines strip_def isspace_def char_eval)

lemma example_metadata:
  "parse_metadata_line ref_lib
     ''Foo: bar, SerieNumber: 42, InstallationDepth: abc, ReadingTime: never'' ''site/BH-7.pvt''
   = Inr (metadata example_result)"
  by (simp add: example_result_def meta_eval line_eval time_eval float_eval char_eval)

lemma example_data_rows: "data_rows example_text =
     [join [CHR 0x09] [[], [], ''m''],
      join [CHR 0x09] [''2023-05-01'', ''10:05'', ''1,5''],
      ''lonely'',
      join [CHR 0x09] [''2023-05-01'', ''noon'', ''3''],
      join [CHR 0x09] [''2023-05-02'', ''11:00:30'', ''n/a'']]"
  by (simp add: data_rows_def example_lines find_header_def data_start_of_def index_def line_eval char_eval)

lemma example_readings:
  "concat (map (row_reading ref_lib) (data_rows example_text)) = readings example_result"
  by (simp add: example_data_rows example_result_def row_reading_def row_step_def field_float_def
      index_def line_eval time_eval float_eval char_eval)

lemma example_parse: "parse ref_lib example_fs ''site/BH-7.pvt'' = Inr [example_result]"
proof -
  have "example_fs ''site/BH-7.pvt'' = Some example_text"
    by (simp add: example_fs_def)
  from parse_text_file_returns [of example_fs "''site/BH-7.pvt''" example_text ref_lib] this
  have "parse_text_file ref_lib example_fs ''site/BH-7.pvt'' =
     Inr \<lparr> metadata = metadata example_result,
           readings = concat (map (row_reading ref_lib) (data_rows example_text)) \<rparr>"
    using example_metadata by (auto simp: example_meta_line)
  then show ?thesis
    by (simp add: parse_def example_readings)
qed

section \<open>Readings: timestamps, order, errors\<close>

text \<open>
  C2. Every reading of the result has a timestamp. The readings are what the data rows
  yield, row by row, and a row yields nothing when it has fewer than two tab-separated
  fields or when its date and time do not combine into a timestamp: such a row is
  absent from the result, never present with a null timestamp.
\<close>

theorem readings_have_timestamps:
  assumes "fs file_path = Some text"
  shows "\<exists>res. parse L fs file_path = Inr [res]
     \<and> (\<forall>r \<in> set (readings res). PiezometerReading.reading_time r \<noteq> None)
     \<and> readings res = concat (map (row_reading L) (data_rows text))
     \<and> (\<forall>line. length (split_on (CHR 0x09) line) < 2 \<longrightarrow> row_reading L line = [])
     \<and> (\<forall>line. 2 \<le> length (split_on (CHR 0x09) line)
            \<and> parse_datetime_parts L (split_on (CHR 0x09) line ! 0) (split_on (CHR 0x09) line ! 1) = Inr None
          \<longrightarrow> row_reading L line = [])"
proof -
  obtain md where "parse_text_file L fs file_path =
      Inr \<lparr> metadata = md, readings = concat (map (row_reading L) (data_rows text)) \<rparr>"
    using parse_text_file_returns [of fs file_path "text" L] assms by blast
  then have "parse L fs file_path =
      Inr [\<lparr> metadata = md, readings = concat (map (row_reading L) (data_rows text)) \<rparr>]"
    by (simp add: parse_def)
  moreover have "\<forall>r \<in> set (concat (map (row_reading L) (data_rows text))).
      PiezometerReading.reading_time r \<noteq> None"
    using row_reading_time by auto
  ultimately show ?thesis
    using row_reading_few_fields row_reading_no_timestamp by auto
qed

theorem readings_have_timestamps_witness:
  "example_fs ''site/BH-7.pvt'' = Some example_text
   \<and> parse ref_lib example_fs ''site/BH-7.pvt'' = Inr [example_result]
   \<and> length (readings example_result) = 2
   \<and> list_all (\<lambda>r. PiezometerReading.reading_time r \<noteq> None) (readings example_result)
   \<and> readings example_result = concat (map (row_reading ref_lib) (data_rows example_text))
   \<and> length (split_on (CHR 0x09) ''lonely'') < 2
   \<and> row_reading ref_lib ''lonely'' = []
   \<and> 2 \<le> length (split_on (CHR 0x09) (join [CHR 0x09] [''2023-05-01'', ''noon'', ''3'']))
   \<and> parse_datetime_parts ref_lib ''2023-05-01'' ''noon'' = Inr None
   \<and> row_reading ref_lib (join [CHR 0x09] [''2023-05-01'', ''noon'', ''3'']) = []"
proof -
  have fs: "example_fs ''site/BH-7.pvt'' = Some example_text"
    by (simp add: example_fs_def)
  have few: "length (split_on (CHR 0x09) ''lonely'') < 2"
    by simp
  have parts: "split_on (CHR 0x09) (join [CHR 0x09] [''2023-05-01'', ''noon'', ''3''])
      = [''2023-05-01'', ''noon'', ''3'']"
    by simp
  have bad: "parse_datetime_parts ref_lib ''2023-05-01'' ''noon'' = Inr None"
    by (simp add: line_eval time_eval float_eval char_eval)
  obtain res where res: "parse ref_lib example_fs ''site/BH-7.pvt'' = Inr [res]"
      "\<forall>r \<in> set (readings res). PiezometerReading.reading_time r \<noteq> None"
      "readings res = concat (map (row_reading ref_lib) (data_rows example_text))"
      "\<forall>line. length (split_on (CHR 0x09) line) < 2 \<longrightarrow> row_reading ref_lib line = []"
      "\<forall>line. 2 \<le> length (split_on (CHR 0x09) line)
            \<and> parse_datetime_parts ref_lib (split_on (CHR 0x09) line ! 0) (split_on (CHR 0x09) line ! 1) = Inr None
          \<longrightarrow> row_reading ref_lib line = []"
    using readings_have_timestamps [of example_fs "''site/BH-7.pvt''" example_text ref_lib] fs
    by blast
  have eq: "res = example_result"
    using res(1) example_parse by simp
  have "row_reading ref_lib ''lonely'' = []"
    using res(4) few by blast
  moreover have "row_reading ref_lib (join [CHR 0x09] [''2023-05-01'', ''noon'', ''3'']) = []"
    using res(5) [rule_format, of "join [CHR 0x09] [''2023-05-01'', ''noon'', ''3'']"] bad
    by (simp add: parts)
  moreover have "length (readings example_result) = 2"
    by (simp add: example_result_def)
  ultimately show ?thesis
    using fs few bad res(2,3) example_parse parts unfolding eq
    by (simp add: list_all_iff)
qed

text \<open>
  C5. The readings come in the order of their source rows: the result lists, by
  increasing row index, the reading of each data row that yields one, and the data rows
  are a suffix of the file's lines. Nothing is sorted or reordered.
\<close>

theorem readings_keep_file_order:
  assumes "fs file_path = Some text"
  shows "\<exists>res. parse L fs file_path = Inr [res]
     \<and> readings res =
         map (\<lambda>i. hd (row_reading L (data_rows text ! i)))
           (filter (\<lambda>i. row_reading L (data_rows text ! i) \<noteq> []) [0..<length (data_rows text)])
     \<and> (\<exists>n. data_rows text = drop n (text_lines text))"
proof -
  obtain md where "parse_text_file L fs file_path =
      Inr \<lparr> metadata = md, readings = concat (map (row_reading L) (data_rows text)) \<rparr>"
    using parse_text_file_returns [of fs file_path "text" L] assms by blast
  then have "parse L fs file_path =
      Inr [\<lparr> metadata = md, readings = concat (map (row_reading L) (data_rows text)) \<rparr>]"
    by (simp add: parse_def)
  moreover have "concat (map (row_reading L) (data_rows text)) =
         map (\<lambda>i. hd (row_reading L (data_rows text ! i)))
           (filter (\<lambda>i. row_reading L (data_rows text ! i) \<noteq> []) [0..<length (data_rows text)])"
    by (rule concat_singletons_indices) (rule row_reading_length)
  moreover have "\<exists>n. data_rows text = drop n (text_lines text)"
  proof (cases "find_header (text_lines text)")
    case None
    then have "data_rows text = drop (length (text_lines text)) (text_lines text)"
      by (simp add: data_rows_def)
    then show ?thesis by blast
  next
    case (Some h)
    obtain n where "data_start_of (text_lines text) h = Inr n"
      using data_start_of_returns by blast
    then have "data_rows text = drop n (text_lines text)"
      using Some by (simp add: data_rows_def)
    then show ?thesis by blast
  qed
  ultimately show ?thesis by simp
qed

theorem readings_keep_file_order_witness:
  "example_fs ''site/BH-7.pvt'' = Some example_text
   \<and> parse ref_lib example_fs ''site/BH-7.pvt'' = Inr [example_result]
   \<and> filter (\<lambda>i. row_reading ref_lib (data_rows example_text ! i) \<noteq> [])
        [0..<length (data_rows example_text)] = [1, 4]
   \<and> readings example_result =
        [hd (row_reading ref_lib (data_rows example_text ! 1)),
         hd (row_reading ref_lib (data_rows example_text ! 4))]
   \<and> data_rows example_text = drop 2 (text_lines example_text)"
proof -
  have fs: "example_fs ''site/BH-7.pvt'' = Some example_text"
    by (simp add: example_fs_def)
  have idx: "filter (\<lambda>i. row_reading ref_lib (data_rows example_text ! i) \<noteq> [])
        [0..<length (data_rows example_text)] = [1, 4]"
    by (simp add: example_data_rows row_reading_def row_step_def
        field_float_def index_def line_eval time_eval float_eval char_eval)
  have suffix: "data_rows example_text = drop 2 (text_lines example_text)"
    by (simp add: example_data_rows example_lines)
  obtain res where res: "parse ref_lib example_fs ''site/BH-7.pvt'' = Inr [res]"
      "readings res =
         map (\<lambda>i. hd (row_reading ref_lib (data_rows example_text ! i)))
           (filter (\<lambda>i. row_reading ref_lib (data_rows example_text ! i) \<noteq> [])
              [0..<length (data_rows example_text)])"
    using readings_keep_file_order [of example_fs "''site/BH-7.pvt''" example_text ref_lib] fs
    by blast
  have eq: "res = example_result"
    using res(1) example_parse by simp
  show ?thesis
    using fs example_parse suffix res(2) unfolding eq idx by simp
qed

text \<open>
  C4. On any text the parse returns a result and raises nothing: an unknown metadata
  key, an unparsable value, a row with too few fields, a bad timestamp and a non-numeric
  field end as a null field or a dropped row. The only exception that reaches the
  caller is the one raised by the read of the file: ValueError for a path that holds a
  NUL character, OSError for any other file that cannot be read.
\<close>

theorem parse_raises_only_on_file_access:
  "(\<forall>text. fs file_path = Some text \<longrightarrow> (\<exists>r. parse L fs file_path = Inr [r]))
   \<and> (fs file_path = None \<longrightarrow>
        read_text fs file_path = Inl (if CHR 0x00 \<in> set file_path then ValueError else OSError)
        \<and> parse L fs file_path = Inl (if CHR 0x00 \<in> set file_path then ValueError else OSError))
   \<and> (\<forall>e. parse L fs file_path = Inl e \<longrightarrow> fs file_path = None \<and> read_text fs file_path = Inl e)"
proof (cases "fs file_path")
  case None
  then show ?thesis
    by (simp add: parse_def parse_text_file_unreadable read_text_def read_error_def)
next
  case (Some t)
  then obtain r where "parse_text_file L fs file_path = Inr r"
    using parse_text_file_returns [of fs file_path t L] by blast
  then show ?thesis
    using Some by (simp add: parse_def)
qed

theorem parse_raises_only_on_file_access_witness:
  "example_fs ''site/BH-7.pvt'' = Some example_text
   \<and> parse ref_lib example_fs ''site/BH-7.pvt'' = Inr [example_result]
   \<and> example_fs ''site/missing.pvt'' = None
   \<and> parse ref_lib example_fs ''site/missing.pvt'' = Inl OSError
   \<and> read_text example_fs ''site/missing.pvt'' = Inl OSError
   \<and> example_fs [CHR ''a'', CHR 0x00, CHR ''b''] = None
   \<and> parse ref_lib example_fs [CHR ''a'', CHR 0x00, CHR ''b''] = Inl ValueError
   \<and> read_text example_fs [CHR ''a'', CHR 0x00, CHR ''b''] = Inl ValueError"
proof -
  have a: "example_fs ''site/BH-7.pvt'' = Some example_text"
    and b: "example_fs ''site/missing.pvt'' = None"
    and c: "example_fs [CHR ''a'', CHR 0x00, CHR ''b''] = None"
    by (simp_all add: example_fs_def)
  have "parse ref_lib example_fs ''site/missing.pvt'' = Inl OSError"
    using parse_raises_only_on_file_access [of example_fs "''site/missing.pvt''" ref_lib] b
    by simp
  moreover have "parse ref_lib example_fs [CHR ''a'', CHR 0x00, CHR ''b''] = Inl ValueError"
    using parse_raises_only_on_file_access [of example_fs "[CHR ''a'', CHR 0x00, CHR ''b'']" ref_lib] c
    by simp
  moreover have "read_text example_fs ''site/missing.pvt'' = Inl OSError"
    using b by (simp add: read_text_def read_error_def)
  moreover have "read_text example_fs [CHR ''a'', CHR 0x00, CHR ''b''] = Inl ValueError"
    using c by (simp add: read_text_def read_error_def)
  ultimately show ?thesis
    using a b c example_parse by (intro conjI)
qed

lemma parse_agrees_on_path:
  "fs file_path = fs' file_path \<Longrightarrow> parse L fs file_path = parse L fs' file_path"
  by (simp add: parse_def parse_text_file_def read_text_def)

section \<open>The units row\<close>

lemma split_on_nonempty: "split_on c s \<noteq> []"
  by (induction s) (auto split: list.splits)

lemma paren_not_space: "\<not> isspace (CHR ''('')"
  by (simp add: isspace_def char_eval)

lemma tab_is_space: "isspace (CHR 0x09)"
  by (simp add: isspace_def char_eval)

lemma dropWhile_hd: "dropWhile P xs \<noteq> [] \<Longrightarrow> \<not> P (hd (dropWhile P xs))"
  by (induction xs) auto

lemma strip_hd_not_space: "strip s \<noteq> [] \<Longrightarrow> \<not> isspace (hd (strip s))"
proof -
  assume ne: "strip s \<noteq> []"
  define t where "t = dropWhile isspace s"
  have s: "strip s = rev (dropWhile isspace (rev t))"
    by (simp add: strip_def t_def)
  have tne: "t \<noteq> []" using ne s by auto
  then have h: "\<not> isspace (hd t)"
    unfolding t_def by (rule dropWhile_hd)
  obtain a u where t: "t = a # u" using tne by (cases t) auto
  have "\<exists>v. strip s = a # v"
  proof (cases "dropWhile isspace (rev u) = []")
    case True
    then have "dropWhile isspace (rev u @ [a]) = [a]"
      using h t by (simp add: dropWhile_append)
    then show ?thesis using s t by simp
  next
    case False
    then have "dropWhile isspace (rev u @ [a]) = dropWhile isspace (rev u) @ [a]"
      by (metis dropWhile_append1 dropWhile_eq_Nil_conv)
    then show ?thesis using s t by simp
  qed
  then show ?thesis using h t by auto
qed

lemma row_reading_leading_tab:
  assumes "line \<noteq> []" "hd line = CHR 0x09"
  shows "row_reading L line = []"
proof -
  obtain rest where line: "line = CHR 0x09 # rest"
    using assms by (cases line) auto
  obtain p ps where sp: "split_on (CHR 0x09) rest = p # ps"
    using split_on_nonempty [of "CHR 0x09" rest] by (cases "split_on (CHR 0x09) rest") auto
  have parts: "split_on (CHR 0x09) line = [] # p # ps"
    using line sp by simp
  show ?thesis
    by (simp add: row_reading_def row_step_def Let_def parts index_def parse_datetime_parts_def)
qed

lemma data_start_paren:
  assumes "Suc h < length lines" "CHR ''('' \<in> set (lines ! Suc h)"
  shows "data_start_of lines h = Inr (h + 2)"
proof -
  have "CHR ''('' \<in> set (strip (lines ! Suc h))"
    using assms(2) set_strip [OF paren_not_space] by simp
  then show ?thesis
    using assms(1) by (auto simp: data_start_of_def Let_def index_def)
qed

lemma data_start_no_paren:
  assumes "CHR ''('' \<notin> set (lines ! Suc h)"
  shows "data_start_of lines h = Inr (h + 1)"
proof (cases "Suc h < length lines")
  case False
  then show ?thesis by (simp add: data_start_of_def)
next
  case True
  have a: "CHR ''('' \<notin> set (strip (lines ! Suc h))"
    using assms set_strip [OF paren_not_space] by simp
  have b: "strip (lines ! Suc h) \<noteq> [] \<Longrightarrow> \<not> startswith (strip (lines ! Suc h)) [CHR 0x09]"
    using strip_hd_not_space [of "lines ! Suc h"] tab_is_space
    by (cases "strip (lines ! Suc h)") (auto simp: startswith_def)
  show ?thesis
    using True a b by (auto simp: data_start_of_def Let_def index_def)
qed

lemma units_row_readings:
  assumes "Suc h < length lines" "lines ! Suc h \<noteq> []"
    and "CHR ''('' \<in> set (lines ! Suc h) \<or> hd (lines ! Suc h) = CHR 0x09"
  shows "\<exists>n. data_start_of lines h = Inr n
     \<and> concat (map (row_reading L) (drop n lines)) = concat (map (row_reading L) (drop (h + 2) lines))"
proof (cases "CHR ''('' \<in> set (lines ! Suc h)")
  case True
  then show ?thesis
    using data_start_paren [OF assms(1)] by simp
next
  case False
  then have tab: "hd (lines ! Suc h) = CHR 0x09"
    using assms(3) by simp
  have "drop (Suc h) lines = lines ! Suc h # drop (Suc (Suc h)) lines"
    using assms(1) by (simp add: Cons_nth_drop_Suc)
  then have "concat (map (row_reading L) (drop (h + 1) lines))
      = concat (map (row_reading L) (drop (h + 2) lines))"
    using row_reading_leading_tab [OF assms(2) tab, of L] by simp
  then show ?thesis
    using data_start_no_paren [OF False] by simp
qed

lemma units_lines: "text_lines units_text =
     [''MeasurePoint: , SerieNumber: 7'',
      join [CHR 0x09] [''Date'', ''Time'', ''Pressure''],
      join [CHR 0x09] [''2023-05-01'', ''10:00'', ''(1)''],
      join [CHR 0x09] [''2023-05-01'', ''10:05'', ''2'']]"
  by (simp add: units_text_def text_eval char_eval)

lemma units_meta_line: "first_nonblank (text_lines units_text) = ''MeasurePoint: , SerieNumber: 7''"
  by (simp add: units_lines strip_def isspace_def char_eval)

lemma units_metadata:
  "parse_metadata_line ref_lib ''MeasurePoint: , SerieNumber: 7'' ''logs/P12.pvt''
   = Inr (metadata units_result)"
  by (simp add: units_result_def meta_eval line_eval time_eval float_eval char_eval)

lemma units_header: "find_header (text_lines units_text) = Some 1"
  by (simp add: units_lines find_header_def line_eval char_eval)

lemma units_data_rows:
  "data_rows units_text = [join [CHR 0x09] [''2023-05-01'', ''10:05'', ''2'']]"
  by (simp add: data_rows_def units_lines find_header_def data_start_of_def index_def line_eval char_eval)

lemma units_readings:
  "concat (map (row_reading ref_lib) (data_rows units_text)) = readings units_result"
  by (simp add: units_data_rows units_result_def row_reading_def row_step_def field_float_def
      index_def line_eval time_eval float_eval char_eval)

lemma units_parse: "parse ref_lib units_fs ''logs/P12.pvt'' = Inr [units_result]"
proof -
  have "units_fs ''logs/P12.pvt'' = Some units_text"
    by (simp add: units_fs_def)
  from parse_text_file_returns [of units_fs "''logs/P12.pvt''" units_text ref_lib] this
  have "parse_text_file ref_lib units_fs ''logs/P12.pvt'' =
     Inr \<lparr> metadata = metadata units_result,
           readings = concat (map (row_reading ref_lib) (data_rows units_text)) \<rparr>"
    using units_metadata by (auto simp: units_meta_line)
  then show ?thesis
    by (simp add: parse_def units_readings)
qed

lemma example_header: "find_header (text_lines example_text) = Some 1"
  by (simp add: example_lines find_header_def line_eval char_eval)

text \<open>
  C3. When a header is found and the next line is not empty and holds an opening
  parenthesis or begins with a tab, that line gives no reading: the readings are those
  of the rows from one line further on. A line with an opening parenthesis is stepped
  over before the row loop, which then starts one line further; a line that begins with
  a tab gives no reading because its date field is empty. The parenthesis has to be an
  opening one: the code looks for \<open>(\<close> only.
\<close>

theorem units_row_skipped:
  assumes "fs file_path = Some text"
    and "find_header (text_lines text) = Some h"
    and "Suc h < length (text_lines text)"
    and "text_lines text ! Suc h \<noteq> []"
    and "CHR ''('' \<in> set (text_lines text ! Suc h) \<or> hd (text_lines text ! Suc h) = CHR 0x09"
  shows "(\<exists>res. parse L fs file_path = Inr [res]
       \<and> readings res = concat (map (row_reading L) (drop (h + 2) (text_lines text))))
     \<and> (CHR ''('' \<in> set (text_lines text ! Suc h) \<longrightarrow>
          data_start_of (text_lines text) h = Inr (h + 2))
     \<and> (hd (text_lines text ! Suc h) = CHR 0x09 \<longrightarrow>
          row_reading L (text_lines text ! Suc h) = [])"
proof -
  obtain md where p: "parse_text_file L fs file_path =
      Inr \<lparr> metadata = md, readings = concat (map (row_reading L) (data_rows text)) \<rparr>"
    using parse_text_file_returns [of fs file_path "text" L] assms(1) by blast
  obtain n where n: "data_start_of (text_lines text) h = Inr n"
    "concat (map (row_reading L) (drop n (text_lines text)))
       = concat (map (row_reading L) (drop (h + 2) (text_lines text)))"
    using units_row_readings [OF assms(3,4,5), of L] by blast
  have "data_rows text = drop n (text_lines text)"
    using assms(2) n(1) by (simp add: data_rows_def)
  then have "\<exists>res. parse L fs file_path = Inr [res]
       \<and> readings res = concat (map (row_reading L) (drop (h + 2) (text_lines text)))"
    using p n(2) by (simp add: parse_def)
  then show ?thesis
    using data_start_paren [OF assms(3)] row_reading_leading_tab [OF assms(4), of L] by blast
qed

theorem units_row_skipped_witness:
  "example_fs ''site/BH-7.pvt'' = Some example_text
   \<and> find_header (text_lines example_text) = Some 1
   \<and> Suc 1 < length (text_lines example_text)
   \<and> text_lines example_text ! Suc 1 = [CHR 0x09, CHR 0x09, CHR ''m'']
   \<and> hd (text_lines example_text ! Suc 1) = CHR 0x09
   \<and> parse ref_lib example_fs ''site/BH-7.pvt'' = Inr [example_result]
   \<and> readings example_result
       = concat (map (row_reading ref_lib) (drop (1 + 2) (text_lines example_text)))
   \<and> row_reading ref_lib (text_lines example_text ! Suc 1) = []
   \<and> units_fs ''logs/P12.pvt'' = Some units_text
   \<and> find_header (text_lines units_text) = Some 1
   \<and> Suc 1 < length (text_lines units_text)
   \<and> CHR ''('' \<in> set (text_lines units_text ! Suc 1)
   \<and> parse ref_lib units_fs ''logs/P12.pvt'' = Inr [units_result]
   \<and> readings units_result
       = concat (map (row_reading ref_lib) (drop (1 + 2) (text_lines units_text)))
   \<and> data_start_of (text_lines units_text) 1 = Inr (1 + 2)"
proof -
  have fs: "example_fs ''site/BH-7.pvt'' = Some example_text"
    by (simp add: example_fs_def)
  have len: "Suc 1 < length (text_lines example_text)"
    by (simp add: example_lines)
  have row: "text_lines example_text ! Suc 1 = [CHR 0x09, CHR 0x09, CHR ''m'']"
    by (simp add: example_lines)
  have ne: "text_lines example_text ! Suc 1 \<noteq> []"
    unfolding row by simp
  have tab: "CHR ''('' \<in> set (text_lines example_text ! Suc 1)
      \<or> hd (text_lines example_text ! Suc 1) = CHR 0x09"
    unfolding row by simp
  have hdtab: "hd (text_lines example_text ! Suc 1) = CHR 0x09"
    unfolding row by simp
  obtain res where res: "parse ref_lib example_fs ''site/BH-7.pvt'' = Inr [res]"
    "readings res = concat (map (row_reading ref_lib) (drop (1 + 2) (text_lines example_text)))"
    "row_reading ref_lib (text_lines example_text ! Suc 1) = []"
    using units_row_skipped [of example_fs "''site/BH-7.pvt''" example_text 1 ref_lib]
      fs example_header len ne tab hdtab
    by blast
  have eq: "res = example_result"
    using res(1) example_parse by simp
  have fs2: "units_fs ''logs/P12.pvt'' = Some units_text"
    by (simp add: units_fs_def)
  have len2: "Suc 1 < length (text_lines units_text)"
    by (simp add: units_lines)
  have par: "CHR ''('' \<in> set (text_lines units_text ! Suc 1)"
    by (simp add: units_lines)
  have ne2: "text_lines units_text ! Suc 1 \<noteq> []"
    using par by auto
  obtain res2 where res2: "parse ref_lib units_fs ''logs/P12.pvt'' = Inr [res2]"
    "readings res2 = concat (map (row_reading ref_lib) (drop (1 + 2) (text_lines units_text)))"
    "data_start_of (text_lines units_text) 1 = Inr (1 + 2)"
    using units_row_skipped [of units_fs "''logs/P12.pvt''" units_text 1 ref_lib]
      fs2 units_header len2 ne2 par
    by blast
  have eq2: "res2 = units_result"
    using res2(1) units_parse by simp
  show ?thesis
    using fs example_header len row hdtab example_parse res(2,3) fs2 units_header len2 par
      units_parse res2(2,3)
    unfolding eq eq2 by (intro conjI)
qed

lemma closing_lines: "text_lines closing_text =
     [join [CHR 0x09] [''Date'', ''Time'', ''Pressure''],
      join [CHR 0x09] [''2023-05-01'', ''10:00'', ''1)'']]"
  by (simp add: closing_text_def text_eval char_eval)

lemma closing_meta_line:
  "first_nonblank (text_lines closing_text) = join [CHR 0x09] [''Date'', ''Time'', ''Pressure'']"
  by (simp add: closing_lines strip_def isspace_def char_eval)

lemma closing_metadata:
  "parse_metadata_line ref_lib (join [CHR 0x09] [''Date'', ''Time'', ''Pressure'']) ''logs/P13.pvt''
   = Inr (metadata closing_result)"
  by (simp add: closing_result_def meta_eval line_eval time_eval float_eval char_eval)

lemma closing_header: "find_header (text_lines closing_text) = Some 0"
  by (simp add: closing_lines find_header_def line_eval char_eval)

lemma closing_data_start: "data_start_of (text_lines closing_text) 0 = Inr 1"
  by (simp add: closing_lines data_start_of_def index_def line_eval char_eval)

lemma closing_data_rows:
  "data_rows closing_text = [join [CHR 0x09] [''2023-05-01'', ''10:00'', ''1)'']]"
  by (simp add: data_rows_def closing_header closing_data_start) (simp add: closing_lines)

lemma closing_row:
  "row_reading ref_lib (join [CHR 0x09] [''2023-05-01'', ''10:00'', ''1)'']) = readings closing_result"
  by (simp add: closing_result_def row_reading_def row_step_def field_float_def
      index_def line_eval time_eval float_eval char_eval)

lemma closing_parse: "parse ref_lib closing_fs ''logs/P13.pvt'' = Inr [closing_result]"
proof -
  have "closing_fs ''logs/P13.pvt'' = Some closing_text"
    by (simp add: closing_fs_def)
  from parse_text_file_returns [of closing_fs "''logs/P13.pvt''" closing_text ref_lib] this
  have "parse_text_file ref_lib closing_fs ''logs/P13.pvt'' =
     Inr \<lparr> metadata = metadata closing_result,
           readings = concat (map (row_reading ref_lib) (data_rows closing_text)) \<rparr>"
    using closing_metadata by (auto simp: closing_meta_line)
  then show ?thesis
    using closing_row by (simp add: parse_def closing_data_rows)
qed

text \<open>
  C3 as the specification words it fails for a closing parenthesis. In this file a header
  is found, and the next line is not empty and holds a parenthesis, the closing one of
  \<open>1)\<close>. The line is not stepped over: the row loop starts at it, and it gives the one
  reading of the result, where the rows from one line further on give none.
\<close>

theorem units_row_skipped_counterexample:
  "closing_fs ''logs/P13.pvt'' = Some closing_text
   \<and> find_header (text_lines closing_text) = Some 0
   \<and> Suc 0 < length (text_lines closing_text)
   \<and> text_lines closing_text ! Suc 0 = join [CHR 0x09] [''2023-05-01'', ''10:00'', ''1)'']
   \<and> text_lines closing_text ! Suc 0 \<noteq> []
   \<and> CHR '')'' \<in> set (text_lines closing_text ! Suc 0)
   \<and> data_start_of (text_lines closing_text) 0 = Inr 1
   \<and> parse ref_lib closing_fs ''logs/P13.pvt'' = Inr [closing_result]
   \<and> row_reading ref_lib (text_lines closing_text ! Suc 0) = readings closing_result
   \<and> length (readings closing_result) = 1
   \<and> concat (map (row_reading ref_lib) (drop (0 + 2) (text_lines closing_text))) = []"
proof -
  have fs: "closing_fs ''logs/P13.pvt'' = Some closing_text"
    by (simp add: closing_fs_def)
  have row: "text_lines closing_text ! Suc 0 = join [CHR 0x09] [''2023-05-01'', ''10:00'', ''1)'']"
    by (simp add: closing_lines)
  have len: "Suc 0 < length (text_lines closing_text)"
    by (simp add: closing_lines)
  have ne: "text_lines closing_text ! Suc 0 \<noteq> []"
    unfolding row by simp
  have par: "CHR '')'' \<in> set (text_lines closing_text ! Suc 0)"
    unfolding row by simp
  have rr: "row_reading ref_lib (text_lines closing_text ! Suc 0) = readings closing_result"
    unfolding row by (rule closing_row)
  have one: "length (readings closing_result) = 1"
    by (simp add: closing_result_def)
  have rest: "concat (map (row_reading ref_lib) (drop (0 + 2) (text_lines closing_text))) = []"
    by (simp add: closing_lines)
  show ?thesis
    using fs closing_header len row ne par closing_data_start closing_parse rr one rest
    by (intro conjI)
qed

section \<open>Metadata keys\<close>

lemma split_on_append_sep: "split_on c (a @ c # b) = split_on c a @ split_on c b"
  by (induction a) (auto split: list.splits simp: split_on_nonempty)

lemma split_on_prefix:
  "c \<notin> set a \<Longrightarrow> split_on c (a @ b) = (a @ hd (split_on c b)) # tl (split_on c b)"
  by (induction a) (auto split: list.splits simp: split_on_nonempty)

lemma dropWhile_before: "\<not> P c \<Longrightarrow> dropWhile P (a @ c # b) = dropWhile P a @ c # b"
  by (induction a) auto

lemma strip_around:
  "\<not> isspace c \<Longrightarrow> strip (a @ c # b) = dropWhile isspace a @ c # rev (dropWhile isspace (rev b))"
  by (simp add: strip_def dropWhile_before)

lemma colon_not_space: "\<not> isspace (CHR '':'')"
  by (simp add: isspace_def char_eval)

lemma space_not_alnum: "isspace c \<Longrightarrow> \<not> isalnum (lower_char c)"
  by (auto simp: isspace_def isalnum_def lower_char_def isdigit_def)

lemma normalize_key_lstrip: "normalize_key (dropWhile isspace k) = normalize_key k"
  by (induction k) (auto simp: normalize_key_def lower_def space_not_alnum)

lemma takeWhile_until: "c \<notin> set a \<Longrightarrow> takeWhile (\<lambda>x. x \<noteq> c) (a @ c # r) = a"
  by (induction a) auto

lemma dropWhile_until: "c \<notin> set a \<Longrightarrow> dropWhile (\<lambda>x. x \<noteq> c) (a @ c # r) = c # r"
  by (induction a) auto

lemma token_of_key:
  assumes "CHR '':'' \<notin> set k"
  shows "token_key (strip (k @ CHR '':'' # h)) = Some (normalize_key k)"
    and "token_value (strip (k @ CHR '':'' # h)) = strip (rev (dropWhile isspace (rev h)))"
    and "strip (k @ CHR '':'' # h) \<noteq> []"
proof -
  have s: "strip (k @ CHR '':'' # h) = dropWhile isspace k @ CHR '':'' # rev (dropWhile isspace (rev h))"
    using colon_not_space by (rule strip_around)
  have n: "CHR '':'' \<notin> set (dropWhile isspace k)"
    using assms set_dropWhileD by fastforce
  have t: "takeWhile (\<lambda>c. c \<noteq> CHR '':'') (dropWhile isspace k @ CHR '':'' # r) = dropWhile isspace k" for r
    using n by (rule takeWhile_until)
  have d: "dropWhile (\<lambda>c. c \<noteq> CHR '':'') (dropWhile isspace k @ CHR '':'' # r) = CHR '':'' # r" for r
    using n by (rule dropWhile_until)
  show "token_key (strip (k @ CHR '':'' # h)) = Some (normalize_key k)"
    by (simp add: s token_key_def t normalize_key_lstrip)
  show "token_value (strip (k @ CHR '':'' # h)) = strip (rev (dropWhile isspace (rev h)))"
    by (simp add: s token_value_def d)
  show "strip (k @ CHR '':'' # h) \<noteq> []"
    by (simp add: s)
qed

lemma add_token_same_key:
  assumes "normalize_key k1 = normalize_key k2" "CHR '':'' \<notin> set k1" "CHR '':'' \<notin> set k2"
  shows "add_token (strip (k1 @ CHR '':'' # h)) = add_token (strip (k2 @ CHR '':'' # h))"
  using assms by (simp add: add_token_def token_of_key fun_eq_iff)

lemma meta_parts_token:
  assumes "CHR '','' \<notin> set k" "CHR '':'' \<notin> set k" "pre = [] \<or> last pre = CHR '',''"
  shows "meta_parts (pre @ k @ CHR '':'' # rest) =
     meta_parts (butlast pre) @ strip (k @ CHR '':'' # hd (split_on (CHR '','') rest))
       # map strip (filter (\<lambda>part. strip part \<noteq> []) (tl (split_on (CHR '','') rest)))"
    (is "_ = ?A pre")
proof -
  have tok: "split_on (CHR '','') (k @ CHR '':'' # rest)
      = (k @ CHR '':'' # hd (split_on (CHR '','') rest)) # tl (split_on (CHR '','') rest)"
  proof -
    have "split_on (CHR '','') (k @ CHR '':'' # rest) = (k @ hd (split_on (CHR '','') (CHR '':'' # rest))) # tl (split_on (CHR '','') (CHR '':'' # rest))"
      using assms(1) by (rule split_on_prefix)
    then show ?thesis
      by (cases "split_on (CHR '','') rest") (simp_all add: split_on_nonempty)
  qed
  have ne: "strip (k @ CHR '':'' # hd (split_on (CHR '','') rest)) \<noteq> []"
    using assms(2) by (rule token_of_key(3))
  show ?thesis
  proof (cases "pre = []")
    case True
    then show ?thesis
      using ne by (simp add: meta_parts_def tok strip_def)
  next
    case False
    then have pre: "pre = butlast pre @ [CHR '','']"
      using assms(3) by (metis append_butlast_last_id)
    have "split_on (CHR '','') (pre @ k @ CHR '':'' # rest)
        = split_on (CHR '','') (butlast pre) @ split_on (CHR '','') (k @ CHR '':'' # rest)"
      using split_on_append_sep [of "CHR '',''" "butlast pre" "k @ CHR '':'' # rest"] pre
      by (metis append.assoc append_Cons append_Nil)
    then show ?thesis
      using ne by (simp add: meta_parts_def tok)
  qed
qed

lemma values_same_key:
  assumes "normalize_key k1 = normalize_key k2"
    and "CHR '','' \<notin> set k1" "CHR '':'' \<notin> set k1"
    and "CHR '','' \<notin> set k2" "CHR '':'' \<notin> set k2"
    and "pre = [] \<or> last pre = CHR '',''"
  shows "fold add_token (meta_parts (pre @ k1 @ CHR '':'' # rest)) m
       = fold add_token (meta_parts (pre @ k2 @ CHR '':'' # rest)) m"
  using assms
  by (simp add: meta_parts_token add_token_same_key [of k1 k2])

lemma parse_metadata_line_values:
  "fold add_token (meta_parts line1) Map.empty = fold add_token (meta_parts line2) Map.empty \<Longrightarrow>
   parse_metadata_line L line1 file_path = parse_metadata_line L line2 file_path"
  by (simp add: parse_metadata_line_def values_loop_fold)

lemma series_number_examples:
  "fold add_token (meta_parts ''SerieNumber: 42'') Map.empty ''serienumber'' = Some ''42''"
  "fold add_token (meta_parts ''serie number:42'') Map.empty ''serienumber'' = Some ''42''"
  "normalize_key ''SerieNumber'' = normalize_key ''serie number''"
  by (simp_all add: add_token_def token_key_def token_value_def meta_parts_def normalize_key_def
      line_eval char_eval)

text \<open>
  C6. Two spellings of a key that normalize identically (lower case, every
  non-alphanumeric character removed) resolve to the same field with the same value: a
  metadata line gives the same metadata when the key of one of its tokens is replaced
  by the other spelling. A key is the text of a token before its first colon, so it
  holds neither a comma nor a colon. The tokens \<open>SerieNumber: 42\<close> and
  \<open>serie number:42\<close> both give the series number \<open>42\<close>.
\<close>

theorem metadata_key_spellings:
  "(normalize_key ka = normalize_key kb
      \<and> CHR '','' \<notin> set ka \<and> CHR '':'' \<notin> set ka \<and> CHR '','' \<notin> set kb \<and> CHR '':'' \<notin> set kb
      \<and> (pre = [] \<or> last pre = CHR '','')
    \<longrightarrow> parse_metadata_line L (pre @ ka @ '':'' @ rest) file_path
        = parse_metadata_line L (pre @ kb @ '':'' @ rest) file_path)
   \<and> normalize_key ''SerieNumber'' = normalize_key ''serie number''
   \<and> (\<exists>md. parse_metadata_line L ''SerieNumber: 42'' file_path = Inr md
          \<and> series_number md = Some ''42'')
   \<and> (\<exists>md. parse_metadata_line L ''serie number:42'' file_path = Inr md
          \<and> series_number md = Some ''42'')"
proof -
  have "parse_metadata_line L (pre @ ka @ '':'' @ rest) file_path
        = parse_metadata_line L (pre @ kb @ '':'' @ rest) file_path"
    if "normalize_key ka = normalize_key kb" "CHR '','' \<notin> set ka" "CHR '':'' \<notin> set ka"
      "CHR '','' \<notin> set kb" "CHR '':'' \<notin> set kb" "pre = [] \<or> last pre = CHR '',''"
    using values_same_key [OF that, of rest Map.empty]
    by (intro parse_metadata_line_values) simp
  moreover have "\<exists>md. parse_metadata_line L ''SerieNumber: 42'' file_path = Inr md
          \<and> series_number md = Some ''42''"
    using parse_metadata_line_returns [of L "''SerieNumber: 42''" file_path]
    by (auto simp: series_number_examples(1))
  moreover have "\<exists>md. parse_metadata_line L ''serie number:42'' file_path = Inr md
          \<and> series_number md = Some ''42''"
    using parse_metadata_line_returns [of L "''serie number:42''" file_path]
    by (auto simp: series_number_examples(2))
  ultimately show ?thesis
    using series_number_examples(3) by blast
qed

theorem metadata_key_spellings_witness:
  "normalize_key ''SerieNumber'' = normalize_key ''serie number''
   \<and> CHR '','' \<notin> set ''SerieNumber'' \<and> CHR '':'' \<notin> set ''SerieNumber''
   \<and> CHR '','' \<notin> set ''serie number'' \<and> CHR '':'' \<notin> set ''serie number''
   \<and> last ''MeasurePoint: BH-1,'' = CHR '',''
   \<and> parse_metadata_line ref_lib ''MeasurePoint: BH-1,SerieNumber: 42, Foo: x'' ''site/BH-7.pvt''
       = parse_metadata_line ref_lib ''MeasurePoint: BH-1,serie number: 42, Foo: x'' ''site/BH-7.pvt''
   \<and> parse_metadata_line ref_lib ''MeasurePoint: BH-1,serie number: 42, Foo: x'' ''site/BH-7.pvt''
       = Inr \<lparr> investigation_point = ''BH-1'', series_number = Some ''42'',
               PiezometerMetadata.reading_time = None, installation_depth = None,
               input_filename = Some ''BH-7.pvt'' \<rparr>"
proof -
  have h: "normalize_key ''SerieNumber'' = normalize_key ''serie number''
      \<and> CHR '','' \<notin> set ''SerieNumber'' \<and> CHR '':'' \<notin> set ''SerieNumber''
      \<and> CHR '','' \<notin> set ''serie number'' \<and> CHR '':'' \<notin> set ''serie number''
      \<and> (''MeasurePoint: BH-1,'' = [] \<or> last ''MeasurePoint: BH-1,'' = CHR '','')"
    by (simp add: series_number_examples(3))
  have e: "parse_metadata_line ref_lib ''MeasurePoint: BH-1,serie number: 42, Foo: x'' ''site/BH-7.pvt''
       = Inr \<lparr> investigation_point = ''BH-1'', series_number = Some ''42'',
               PiezometerMetadata.reading_time = None, installation_depth = None,
               input_filename = Some ''BH-7.pvt'' \<rparr>"
    by (simp add: meta_eval line_eval time_eval float_eval char_eval)
  have "parse_metadata_line ref_lib
          (''MeasurePoint: BH-1,'' @ ''SerieNumber'' @ '':'' @ '' 42, Foo: x'') ''site/BH-7.pvt''
       = parse_metadata_line ref_lib
          (''MeasurePoint: BH-1,'' @ ''serie number'' @ '':'' @ '' 42, Foo: x'') ''site/BH-7.pvt''"
    using metadata_key_spellings
      [of "''SerieNumber''" "''serie number''" "''MeasurePoint: BH-1,''" ref_lib
          "'' 42, Foo: x''" "''site/BH-7.pvt''"] h
    by blast
  then have "parse_metadata_line ref_lib ''MeasurePoint: BH-1,SerieNumber: 42, Foo: x'' ''site/BH-7.pvt''
       = parse_metadata_line ref_lib ''MeasurePoint: BH-1,serie number: 42, Foo: x'' ''site/BH-7.pvt''"
    by simp
  then show ?thesis
    using h e by (intro conjI) simp_all
qed

section \<open>The investigation point\<close>

lemma investigation_point_value:
  assumes "fs file_path = Some text"
  shows "\<exists>res. parse L fs file_path = Inr [res]
     \<and> investigation_point (metadata res) =
         or_str (fold add_token (meta_parts (first_nonblank (text_lines text))) Map.empty ''measurepoint'')
           (path_stem file_path)"
proof -
  obtain md where md: "parse_metadata_line L (first_nonblank (text_lines text)) file_path = Inr md"
    and p: "parse_text_file L fs file_path =
        Inr \<lparr> metadata = md, readings = concat (map (row_reading L) (data_rows text)) \<rparr>"
    using parse_text_file_returns [of fs file_path "text" L] assms by blast
  have "investigation_point md =
      or_str (fold add_token (meta_parts (first_nonblank (text_lines text))) Map.empty ''measurepoint'')
        (path_stem file_path)"
    using parse_metadata_line_returns [of L "first_nonblank (text_lines text)" file_path] md
    by auto
  then show ?thesis
    using p by (simp add: parse_def)
qed

lemma path_stem_nonempty: "path_name file_path \<noteq> [] \<Longrightarrow> path_stem file_path \<noteq> []"
  by (auto simp: path_stem_def Let_def)

text \<open>
  C8. When the metadata line has no token whose key normalizes to \<open>measurepoint\<close>,
  the investigation point is the stem of the path: the file's base name without its
  extension.
\<close>

theorem investigation_point_from_filename:
  assumes "fs file_path = Some text"
    and "tokens_with_key (first_nonblank (text_lines text)) ''measurepoint'' = []"
  shows "\<exists>res. parse L fs file_path = Inr [res]
     \<and> investigation_point (metadata res) = path_stem file_path"
proof -
  have "fold add_token (meta_parts (first_nonblank (text_lines text))) Map.empty ''measurepoint'' = None"
    using assms(2) by (simp add: fold_add_token_lookup tokens_with_key_def)
  then show ?thesis
    using investigation_point_value [of fs file_path "text" L] assms(1)
    by (simp add: or_str_def)
qed

theorem investigation_point_from_filename_witness:
  "example_fs ''site/BH-7.pvt'' = Some example_text
   \<and> tokens_with_key (first_nonblank (text_lines example_text)) ''measurepoint'' = []
   \<and> parse ref_lib example_fs ''site/BH-7.pvt'' = Inr [example_result]
   \<and> investigation_point (metadata example_result) = path_stem ''site/BH-7.pvt''
   \<and> path_stem ''site/BH-7.pvt'' = ''BH-7''"
proof -
  have fs: "example_fs ''site/BH-7.pvt'' = Some example_text"
    by (simp add: example_fs_def)
  have none: "tokens_with_key (first_nonblank (text_lines example_text)) ''measurepoint'' = []"
    by (simp add: example_meta_line tokens_with_key_def token_key_def meta_parts_def
        normalize_key_def line_eval char_eval)
  have stem: "path_stem ''site/BH-7.pvt'' = ''BH-7''"
    by (simp add: path_stem_def path_name_def rfind_def)
  obtain res where res: "parse ref_lib example_fs ''site/BH-7.pvt'' = Inr [res]"
    "investigation_point (metadata res) = path_stem ''site/BH-7.pvt''"
    using investigation_point_from_filename [of example_fs "''site/BH-7.pvt''" example_text ref_lib]
      fs none
    by blast
  have eq: "res = example_result"
    using res(1) example_parse by simp
  show ?thesis
    using fs none example_parse res(2) stem unfolding eq by (intro conjI)
qed

text \<open>
  C9. The fallback also applies when the measure point is present with an empty value,
  as in \<open>MeasurePoint: ,\<close>: the investigation point is then the stem of the path, which
  is not empty when the path has a name. When several tokens carry the key, the
  dictionary keeps the last one, so it is the last one whose value decides.
\<close>

theorem investigation_point_empty_value:
  assumes "fs file_path = Some text"
    and "tokens_with_key (first_nonblank (text_lines text)) ''measurepoint'' \<noteq> []"
    and "token_value (last (tokens_with_key (first_nonblank (text_lines text)) ''measurepoint'')) = []"
  shows "\<exists>res. parse L fs file_path = Inr [res]
     \<and> investigation_point (metadata res) = path_stem file_path
     \<and> (path_name file_path \<noteq> [] \<longrightarrow> investigation_point (metadata res) \<noteq> [])"
proof -
  have "fold add_token (meta_parts (first_nonblank (text_lines text))) Map.empty ''measurepoint''
      = Some []"
    using assms(2,3) by (simp add: fold_add_token_lookup tokens_with_key_def)
  then show ?thesis
    using investigation_point_value [of fs file_path "text" L] assms(1) path_stem_nonempty
    by (auto simp: or_str_def)
qed

theorem investigation_point_empty_value_witness:
  "units_fs ''logs/P12.pvt'' = Some units_text
   \<and> first_nonblank (text_lines units_text) = ''MeasurePoint: , SerieNumber: 7''
   \<and> tokens_with_key (first_nonblank (text_lines units_text)) ''measurepoint'' = [''MeasurePoint:'']
   \<and> token_value (last (tokens_with_key (first_nonblank (text_lines units_text)) ''measurepoint'')) = []
   \<and> parse ref_lib units_fs ''logs/P12.pvt'' = Inr [units_result]
   \<and> investigation_point (metadata units_result) = path_stem ''logs/P12.pvt''
   \<and> path_name ''logs/P12.pvt'' = ''P12.pvt''
   \<and> investigation_point (metadata units_result) = ''P12''"
proof -
  have fs: "units_fs ''logs/P12.pvt'' = Some units_text"
    by (simp add: units_fs_def)
  have toks: "tokens_with_key (first_nonblank (text_lines units_text)) ''measurepoint'' = [''MeasurePoint:'']"
    by (simp add: units_meta_line tokens_with_key_def token_key_def meta_parts_def
        normalize_key_def line_eval char_eval)
  have ne: "tokens_with_key (first_nonblank (text_lines units_text)) ''measurepoint'' \<noteq> []"
    unfolding toks by simp
  have val: "token_value (last (tokens_with_key (first_nonblank (text_lines units_text)) ''measurepoint'')) = []"
    unfolding toks by (simp add: token_value_def strip_def)
  have name: "path_name ''logs/P12.pvt'' = ''P12.pvt''"
    by (simp add: path_name_def)
  obtain res where res: "parse ref_lib units_fs ''logs/P12.pvt'' = Inr [res]"
    "investigation_point (metadata res) = path_stem ''logs/P12.pvt''"
    using investigation_point_empty_value [of units_fs "''logs/P12.pvt''" units_text ref_lib]
      fs ne val
    by blast
  have eq: "res = units_result"
    using res(1) units_parse by simp
  have ip: "investigation_point (metadata units_result) = ''P12''"
    by (simp add: units_result_def)
  show ?thesis
    using fs units_meta_line toks val units_parse res(2) name ip unfolding eq by (intro conjI)
qed

section \<open>The store: what a call changes\<close>

lemma bindS_Inr: "m s = (Inr x, s') \<Longrightarrow> bindS m f s = f x s'"
  by (simp add: bindS_def)

lemma bindS_Inl: "m s = (Inl e, s') \<Longrightarrow> bindS m f s = (Inl e, s')"
  by (simp add: bindS_def)

lemma alloc_eq: "alloc ob s = (Inr (length (heap s)), s\<lparr>heap := heap s @ [ob]\<rparr>)"
  by (simp add: alloc_def)

lemma dict_get_eq:
  "a < length (heap s) \<Longrightarrow> heap s ! a = DictObj m \<Longrightarrow> dict_get a k s = (Inr (m k), s)"
  by (simp add: dict_get_def)

text \<open>The loop over the tokens writes to the dictionary at its address and nowhere else.\<close>

lemma values_loop_S_eq:
  "a < length (heap s) \<Longrightarrow> heap s ! a = DictObj m \<Longrightarrow>
   values_loop_S a parts s = (Inr (), s\<lparr>heap := (heap s)[a := DictObj (fold add_token parts m)]\<rparr>)"
proof (induction parts arbitrary: s m)
  case Nil
  then show ?case
    by (simp add: list_update_same_conv [THEN iffD2])
next
  case (Cons part rest)
  show ?case
  proof (cases "CHR '':'' \<in> set part")
    case False
    then show ?thesis
      using Cons by (simp add: add_token_def token_key_def)
  next
    case True
    define k where "k = normalize_key (takeWhile (\<lambda>c. c \<noteq> CHR '':'') part)"
    define v where "v = strip (tl (dropWhile (\<lambda>c. c \<noteq> CHR '':'') part))"
    define s1 where "s1 = s\<lparr>heap := (heap s)[a := DictObj (m(k \<mapsto> v))]\<rparr>"
    have set: "dict_setitem a k v s = (Inr (), s1)"
      using Cons.prems by (simp add: dict_setitem_def s1_def)
    have a1: "a < length (heap s1)" and h1: "heap s1 ! a = DictObj (m(k \<mapsto> v))"
      using Cons.prems by (simp_all add: s1_def)
    have "values_loop_S a rest s1
        = (Inr (), s1\<lparr>heap := (heap s1)[a := DictObj (fold add_token rest (m(k \<mapsto> v)))]\<rparr>)"
      using a1 h1 by (rule Cons.IH)
    moreover have "add_token part m = m(k \<mapsto> v)"
      using True by (simp add: add_token_def token_key_def token_value_def k_def v_def)
    ultimately show ?thesis
      using True set
      by (simp add: split_once_present k_def [symmetric] v_def [symmetric] s1_def)
  qed
qed

lemma parse_metadata_line_S_eq:
  "parse_metadata_line_S L line file_path s =
     (parse_metadata_line L line file_path,
      s\<lparr>heap := heap s @ [DictObj (fold add_token (meta_parts line) Map.empty)]\<rparr>)"
proof -
  define m where "m = fold add_token (meta_parts line) Map.empty"
  define s1 where "s1 = s\<lparr>heap := heap s @ [DictObj Map.empty]\<rparr>"
  define s2 where "s2 = s\<lparr>heap := heap s @ [DictObj m]\<rparr>"
  have loop: "values_loop_S (length (heap s)) (meta_parts line) s1 = (Inr (), s2)"
    using values_loop_S_eq [of "length (heap s)" s1 Map.empty "meta_parts line"]
    by (simp add: s1_def s2_def m_def)
  have get: "dict_get (length (heap s)) k s2 = (Inr (m k), s2)" for k
    by (rule dict_get_eq) (simp_all add: s2_def)
  obtain rt where rt: "parse_datetime_value L (m ''readingtime'') = Inr rt"
    using parse_datetime_value_returns by blast
  obtain depth where depth:
    "coerce_float (or_opt (m ''installationdepthm'') (m ''installationdepth'')) = Inr depth"
    using coerce_float_returns by blast
  have "parse_metadata_line_S L line file_path s =
      (Inr \<lparr> investigation_point = or_str (m ''measurepoint'') (path_stem file_path),
             series_number = m ''serienumber'',
             PiezometerMetadata.reading_time = rt,
             installation_depth = depth,
             input_filename = Some (path_name file_path) \<rparr>, s2)"
    using loop get rt depth
    by (simp add: parse_metadata_line_S_def bindS_def alloc_def s1_def [symmetric] liftE_def returnS_def)
  moreover have "parse_metadata_line L line file_path =
      Inr \<lparr> investigation_point = or_str (m ''measurepoint'') (path_stem file_path),
             series_number = m ''serienumber'',
             PiezometerMetadata.reading_time = rt,
             installation_depth = depth,
             input_filename = Some (path_name file_path) \<rparr>"
    using rt depth by (simp add: parse_metadata_line_def values_loop_fold m_def)
  ultimately show ?thesis
    by (simp add: s2_def m_def)
qed

text \<open>An instance that has no attribute of the name finds the class attribute.\<close>

lemma find_header_S_eq:
  "self < length (heap s) \<Longrightarrow> heap s ! self = Instance d \<Longrightarrow> d ''_HEADER_PREFIX'' = None \<Longrightarrow>
   find_header_S self idx lines s = (Inr (find_header_from idx lines), s)"
  by (induction lines arbitrary: idx) (simp_all add: get_HEADER_PREFIX_def)

text \<open>One pass of the row loop writes to the list at its address and nowhere else.\<close>

lemma row_step_S_eq:
  assumes "a < length (heap s)" "heap s ! a = ListObj rs"
  shows "row_step_S L a line s = (Inr (), s\<lparr>heap := (heap s)[a := ListObj (rs @ row_reading L line)]\<rparr>)"
proof -
  have same: "s\<lparr>heap := (heap s)[a := ListObj rs]\<rparr> = s"
    using assms by (simp add: list_update_same_conv [THEN iffD2])
  show ?thesis
  proof (cases "strip line = [] \<or> length (split_on (CHR 0x09) line) < 2")
    case True
    then have "row_reading L line = []"
      by (auto simp: row_reading_def row_step_def Let_def)
    then show ?thesis
      using True same by (auto simp: row_step_S_def Let_def returnS_def)
  next
    case False
    define parts where "parts = split_on (CHR 0x09) line"
    have len: "0 < length parts" "1 < length parts"
      using False by (auto simp: parts_def)
    obtain rt where rt: "parse_datetime_parts L (parts ! 0) (parts ! 1) = Inr rt"
      using parse_datetime_parts_returns by blast
    obtain pr te ba where f: "field_float parts 2 = Inr pr" "field_float parts 3 = Inr te"
        "field_float parts 4 = Inr ba"
      using field_float_returns by metis
    show ?thesis
    proof (cases rt)
      case None
      have "row_reading L line = []"
        using False len rt None
        by (simp add: row_reading_def row_step_def Let_def parts_def [symmetric] index_in_range)
      moreover have "row_step_S L a line s = (Inr (), s)"
        using False len rt None
        by (simp add: row_step_S_def Let_def parts_def [symmetric] index_in_range bindS_def
            liftE_def returnS_def)
      ultimately show ?thesis using same by simp
    next
      case (Some t)
      have "row_reading L line = [\<lparr> reading_time = rt, pressure_mh2o = pr,
                                  temperature_c = te, battery_pct = ba \<rparr>]"
        using False len rt Some f
        by (simp add: row_reading_def row_step_def Let_def parts_def [symmetric] index_in_range)
      moreover have "row_step_S L a line s =
          (Inr (), s\<lparr>heap := (heap s)[a := ListObj (rs @ [\<lparr> reading_time = rt, pressure_mh2o = pr,
                                  temperature_c = te, battery_pct = ba \<rparr>])]\<rparr>)"
        using False len rt Some f assms
        by (simp add: row_step_S_def Let_def parts_def [symmetric] index_in_range bindS_def
            liftE_def returnS_def list_append_def)
      ultimately show ?thesis by simp
    qed
  qed
qed

lemma rows_loop_S_eq:
  "a < length (heap s) \<Longrightarrow> heap s ! a = ListObj rs \<Longrightarrow>
   rows_loop_S L a lines s
     = (Inr (), s\<lparr>heap := (heap s)[a := ListObj (rs @ concat (map (row_reading L) lines))]\<rparr>)"
proof (induction lines arbitrary: s rs)
  case Nil
  then show ?case
    by (simp add: list_update_same_conv [THEN iffD2])
next
  case (Cons line rest)
  define s1 where "s1 = s\<lparr>heap := (heap s)[a := ListObj (rs @ row_reading L line)]\<rparr>"
  have step: "row_step_S L a line s = (Inr (), s1)"
    using Cons.prems by (simp add: row_step_S_eq s1_def)
  have "a < length (heap s1)" "heap s1 ! a = ListObj (rs @ row_reading L line)"
    using Cons.prems by (simp_all add: s1_def)
  then have "rows_loop_S L a rest s1
     = (Inr (), s1\<lparr>heap := (heap s1)[a := ListObj ((rs @ row_reading L line) @ concat (map (row_reading L) rest))]\<rparr>)"
    by (rule Cons.IH)
  then show ?case
    using step by (simp add: s1_def)
qed

lemma read_text_Some: "read_text fs file_path = Inr text \<Longrightarrow> fs file_path = Some text"
  by (auto simp: read_text_def split: option.splits)

lemma parse_read_error: "read_text fs file_path = Inl e \<Longrightarrow> parse L fs file_path = Inl e"
  by (simp add: parse_def parse_text_file_def)

lemma parse_text_file_S_raises:
  "read_text (files s) file_path = Inl e \<Longrightarrow> parse_text_file_S L self file_path s = (Inl e, s)"
  by (simp add: parse_text_file_S_def bindS_def read_text_S_def)

lemma parse_text_file_S_returns:
  assumes self: "self < length (heap s)" "heap s ! self = Instance d" "d ''_HEADER_PREFIX'' = None"
    and rd: "read_text (files s) file_path = Inr text"
    and md: "parse_metadata_line L (first_nonblank (text_lines text)) file_path = Inr md"
  shows "parse_text_file_S L self file_path s =
     (Inr \<lparr> ref_metadata = md, ref_readings = Suc (length (heap s)) \<rparr>,
      s\<lparr>heap := heap s @
          [DictObj (fold add_token (meta_parts (first_nonblank (text_lines text))) Map.empty),
           ListObj (concat (map (row_reading L) (data_rows text)))]\<rparr>)"
proof -
  define vals where
    "vals = DictObj (fold add_token (meta_parts (first_nonblank (text_lines text))) Map.empty)"
  define s1 where "s1 = s\<lparr>heap := heap s @ [vals]\<rparr>"
  define s2 where "s2 = s\<lparr>heap := heap s @ [vals, ListObj []]\<rparr>"
  have m: "parse_metadata_line_S L (first_nonblank (text_lines text)) file_path s = (Inr md, s1)"
    using md by (simp add: parse_metadata_line_S_eq s1_def vals_def)
  have "self < length (heap s1)" "heap s1 ! self = Instance d"
    using self by (simp_all add: s1_def nth_append)
  then have h: "find_header_S self 0 (text_lines text) s1 = (Inr (find_header (text_lines text)), s1)"
    using self(3) by (simp add: find_header_S_eq find_header_def)
  have al: "alloc (ListObj []) s1 = (Inr (Suc (length (heap s))), s2)"
    by (simp add: alloc_def s1_def s2_def)
  have a2: "Suc (length (heap s)) < length (heap s2)" "heap s2 ! Suc (length (heap s)) = ListObj []"
    by (simp_all add: s2_def nth_append)
  have rows: "rows_loop_S L (Suc (length (heap s))) lines s2 =
      (Inr (), s\<lparr>heap := heap s @ [vals, ListObj (concat (map (row_reading L) lines))]\<rparr>)" for lines
    using rows_loop_S_eq [OF a2, of L lines]
    by (simp add: s2_def list_update_append)
  have body: "(case find_header (text_lines text) of
                 None \<Rightarrow> returnS ()
               | Some h \<Rightarrow>
                   bindS (liftE (data_start_of (text_lines text) h)) (\<lambda>data_start.
                     rows_loop_S L (Suc (length (heap s))) (drop data_start (text_lines text)))) s2
      = (Inr (), s\<lparr>heap := heap s @ [vals, ListObj (concat (map (row_reading L) (data_rows text)))]\<rparr>)"
  proof (cases "find_header (text_lines text)")
    case None
    then show ?thesis
      by (simp add: returnS_def data_rows_def s2_def)
  next
    case (Some h)
    obtain n where n: "data_start_of (text_lines text) h = Inr n"
      using data_start_of_returns by blast
    then show ?thesis
      using Some rows by (simp add: bindS_def liftE_def data_rows_def)
  qed
  show ?thesis
    using rd m h al body
    by (simp add: parse_text_file_S_def bindS_def read_text_S_def Let_def returnS_def
        vals_def [symmetric])
qed

text \<open>What a call of the method does to the state, and what it returns.\<close>

lemma PVTParser_parse_S_result:
  assumes "self < length (heap s)" "heap s ! self = Instance d" "d ''_HEADER_PREFIX'' = None"
  shows "\<exists>res added. PVTParser_parse_S L self file_path s = (res, s\<lparr>heap := heap s @ added\<rparr>)
     \<and> map_sum id (map (load (s\<lparr>heap := heap s @ added\<rparr>))) res = parse L (files s) file_path
     \<and> (\<forall>r \<in> set (case res of Inl e \<Rightarrow> [] | Inr rs \<Rightarrow> rs). length (heap s) \<le> ref_readings r)"
proof (cases "read_text (files s) file_path")
  case (Inl e)
  then have "PVTParser_parse_S L self file_path s = (Inl e, s\<lparr>heap := heap s @ []\<rparr>)"
    by (simp add: PVTParser_parse_S_def bindS_def parse_text_file_S_raises)
  moreover have "parse L (files s) file_path = Inl e"
    using Inl by (rule parse_read_error)
  ultimately show ?thesis
    by (intro exI [of _ "Inl e"] exI [of _ "[]"]) simp
next
  case (Inr t)
  obtain md where md: "parse_metadata_line L (first_nonblank (text_lines t)) file_path = Inr md"
    and p: "parse_text_file L (files s) file_path =
        Inr \<lparr> metadata = md, readings = concat (map (row_reading L) (data_rows t)) \<rparr>"
    using parse_text_file_returns [of "files s" file_path t L] read_text_Some [OF Inr] by blast
  define added where "added =
      [DictObj (fold add_token (meta_parts (first_nonblank (text_lines t))) Map.empty),
       ListObj (concat (map (row_reading L) (data_rows t)))]"
  have "PVTParser_parse_S L self file_path s =
      (Inr [\<lparr> ref_metadata = md, ref_readings = Suc (length (heap s)) \<rparr>],
       s\<lparr>heap := heap s @ added\<rparr>)"
    using parse_text_file_S_returns [OF assms Inr md]
    by (simp add: PVTParser_parse_S_def bindS_def returnS_def added_def)
  moreover have "load (s\<lparr>heap := heap s @ added\<rparr>)
        \<lparr> ref_metadata = md, ref_readings = Suc (length (heap s)) \<rparr>
      = \<lparr> metadata = md, readings = concat (map (row_reading L) (data_rows t)) \<rparr>"
    by (simp add: load_def added_def nth_append)
  ultimately show ?thesis
    using p
    by (intro exI [of _ "Inr [\<lparr> ref_metadata = md, ref_readings = Suc (length (heap s)) \<rparr>]"]
          exI [of _ added])
       (simp add: parse_def)
qed

lemma parse_S_result:
  "\<exists>res added. parse_S L file_path s = (res, s\<lparr>heap := heap s @ added\<rparr>)
     \<and> map_sum id (map (load (s\<lparr>heap := heap s @ added\<rparr>))) res = parse L (files s) file_path
     \<and> (\<forall>r \<in> set (case res of Inl e \<Rightarrow> [] | Inr rs \<Rightarrow> rs). length (heap s) \<le> ref_readings r)"
proof -
  define s1 where "s1 = s\<lparr>heap := heap s @ [Instance Map.empty]\<rparr>"
  have "length (heap s) < length (heap s1)" "heap s1 ! length (heap s) = Instance Map.empty"
    by (simp_all add: s1_def)
  then obtain res added where r:
    "PVTParser_parse_S L (length (heap s)) file_path s1 = (res, s1\<lparr>heap := heap s1 @ added\<rparr>)"
    "map_sum id (map (load (s1\<lparr>heap := heap s1 @ added\<rparr>))) res = parse L (files s1) file_path"
    "\<forall>r \<in> set (case res of Inl e \<Rightarrow> [] | Inr rs \<Rightarrow> rs). length (heap s1) \<le> ref_readings r"
    using PVTParser_parse_S_result [of "length (heap s)" s1 Map.empty L file_path] by auto
  have "parse_S L file_path s = (res, s\<lparr>heap := heap s @ (Instance Map.empty # added)\<rparr>)"
    using r(1) by (simp add: parse_S_def bindS_def alloc_def s1_def)
  moreover have "map_sum id (map (load (s\<lparr>heap := heap s @ (Instance Map.empty # added)\<rparr>))) res
      = parse L (files s) file_path"
    using r(2) by (simp add: s1_def)
  moreover have "\<forall>r \<in> set (case res of Inl e \<Rightarrow> [] | Inr rs \<Rightarrow> rs). length (heap s) \<le> ref_readings r"
    using r(3) by (auto simp: s1_def)
  ultimately show ?thesis by blast
qed

lemma loaded_parse_S: "loaded (parse_S L file_path s) = parse L (files s) file_path"
proof -
  obtain res added where "parse_S L file_path s = (res, s\<lparr>heap := heap s @ added\<rparr>)"
    "map_sum id (map (load (s\<lparr>heap := heap s @ added\<rparr>))) res = parse L (files s) file_path"
    using parse_S_result by blast
  then show ?thesis
    by (cases res) (simp_all add: loaded_def)
qed

lemma files_parse_S: "files (snd (parse_S L file_path s)) = files s"
proof -
  obtain res added where "parse_S L file_path s = (res, s\<lparr>heap := heap s @ added\<rparr>)"
    using parse_S_result by blast
  then show ?thesis by simp
qed

text \<open>
  C7. A call of \<open>parse\<close> leaves the state as it found it, apart from the objects it
  makes: the file system is the same, every object that was in the heap is still there
  unchanged, and the list the result refers to is a new one. What the call returns,
  read as an aggregate, is the function \<open>parse\<close> of the path and of the file system,
  which looks at the content found at that path only. So two calls give equal
  aggregates whenever the path and the content there are the same, whatever the heap
  holds and whatever other files hold, and in particular when the second call follows
  the first. The same holds for the method called on a parser instance that has no
  attribute of its own.
\<close>

theorem parse_pure_and_stateless:
  fixes s t :: pystate
  shows "(\<exists>res added. parse_S L file_path s = (res, s\<lparr>heap := heap s @ added\<rparr>)
       \<and> map_sum id (map (load (s\<lparr>heap := heap s @ added\<rparr>))) res = parse L (files s) file_path
       \<and> (\<forall>r \<in> set (case res of Inl e \<Rightarrow> [] | Inr rs \<Rightarrow> rs). length (heap s) \<le> ref_readings r))
   \<and> (self < length (heap s) \<and> heap s ! self = Instance d \<and> d ''_HEADER_PREFIX'' = None \<longrightarrow>
        (\<exists>res added. PVTParser_parse_S L self file_path s = (res, s\<lparr>heap := heap s @ added\<rparr>)
           \<and> map_sum id (map (load (s\<lparr>heap := heap s @ added\<rparr>))) res = parse L (files s) file_path))
   \<and> (files s file_path = files t file_path \<longrightarrow>
        loaded (parse_S L file_path s) = loaded (parse_S L file_path t))
   \<and> loaded (parse_S L file_path (snd (parse_S L file_path s))) = loaded (parse_S L file_path s)"
proof -
  have "loaded (parse_S L file_path s) = loaded (parse_S L file_path t)"
    if "files s file_path = files t file_path"
    using that by (simp add: loaded_parse_S parse_agrees_on_path [of "files s" file_path "files t"])
  moreover have "loaded (parse_S L file_path (snd (parse_S L file_path s)))
      = loaded (parse_S L file_path s)"
    by (simp add: loaded_parse_S files_parse_S)
  moreover have "\<exists>res added. PVTParser_parse_S L self file_path s = (res, s\<lparr>heap := heap s @ added\<rparr>)
           \<and> map_sum id (map (load (s\<lparr>heap := heap s @ added\<rparr>))) res = parse L (files s) file_path"
    if "self < length (heap s)" "heap s ! self = Instance d" "d ''_HEADER_PREFIX'' = None"
    using PVTParser_parse_S_result [OF that, of L file_path] by blast
  ultimately show ?thesis
    using parse_S_result [of L file_path s] by blast
qed

theorem parse_pure_and_stateless_witness:
  "loaded (parse_S ref_lib ''site/BH-7.pvt'' example_state) = Inr [example_result]
   \<and> files (snd (parse_S ref_lib ''site/BH-7.pvt'' example_state)) = example_fs
   \<and> take 2 (heap (snd (parse_S ref_lib ''site/BH-7.pvt'' example_state))) = heap example_state
   \<and> length (case fst (parse_S ref_lib ''site/BH-7.pvt'' example_state) of Inl e \<Rightarrow> [] | Inr rs \<Rightarrow> rs) = 1
   \<and> list_all (\<lambda>r. 2 \<le> ref_readings r)
        (case fst (parse_S ref_lib ''site/BH-7.pvt'' example_state) of Inl e \<Rightarrow> [] | Inr rs \<Rightarrow> rs)
   \<and> loaded (parse_S ref_lib ''site/BH-7.pvt'' (snd (parse_S ref_lib ''site/BH-7.pvt'' example_state)))
       = Inr [example_result]
   \<and> 0 < length (heap example_state)
   \<and> heap example_state ! 0 = Instance Map.empty
   \<and> loaded (PVTParser_parse_S ref_lib 0 ''site/BH-7.pvt'' example_state) = Inr [example_result]
   \<and> files example_state ''site/BH-7.pvt'' = files other_state ''site/BH-7.pvt''
   \<and> loaded (parse_S ref_lib ''site/BH-7.pvt'' other_state) = Inr [example_result]"
proof -
  note T = parse_pure_and_stateless
    [of ref_lib "''site/BH-7.pvt''" example_state 0 Map.empty other_state]
  have fl: "files example_state = example_fs" and hp: "length (heap example_state) = 2"
    and i0: "0 < length (heap example_state)" "heap example_state ! 0 = Instance Map.empty"
    by (simp_all add: example_state_def)
  have same: "files example_state ''site/BH-7.pvt'' = files other_state ''site/BH-7.pvt''"
    by (simp add: example_state_def other_state_def)
  obtain res added where
    a: "parse_S ref_lib ''site/BH-7.pvt'' example_state
         = (res, example_state\<lparr>heap := heap example_state @ added\<rparr>)"
    and b: "map_sum id (map (load (example_state\<lparr>heap := heap example_state @ added\<rparr>))) res
         = parse ref_lib (files example_state) ''site/BH-7.pvt''"
    and c: "\<forall>r \<in> set (case res of Inl e \<Rightarrow> [] | Inr rs \<Rightarrow> rs). length (heap example_state) \<le> ref_readings r"
    using T by blast
  have b': "map_sum id (map (load (example_state\<lparr>heap := heap example_state @ added\<rparr>))) res
         = Inr [example_result]"
    using b by (simp add: fl example_parse)
  then obtain rs where rs: "res = Inr rs" "length rs = 1"
    by (cases res) auto
  have l1: "loaded (parse_S ref_lib ''site/BH-7.pvt'' example_state) = Inr [example_result]"
    using a b' rs by (simp add: loaded_def)
  have f1: "files (snd (parse_S ref_lib ''site/BH-7.pvt'' example_state)) = example_fs"
    using a by (simp add: fl)
  have t1: "take 2 (heap (snd (parse_S ref_lib ''site/BH-7.pvt'' example_state))) = heap example_state"
    using a hp by simp
  have n1: "length (case fst (parse_S ref_lib ''site/BH-7.pvt'' example_state) of Inl e \<Rightarrow> [] | Inr rs \<Rightarrow> rs) = 1"
    using a rs by simp
  have fr: "list_all (\<lambda>r. 2 \<le> ref_readings r)
        (case fst (parse_S ref_lib ''site/BH-7.pvt'' example_state) of Inl e \<Rightarrow> [] | Inr rs \<Rightarrow> rs)"
    using a c rs hp by (simp add: list_all_iff)
  have l2: "loaded (parse_S ref_lib ''site/BH-7.pvt'' (snd (parse_S ref_lib ''site/BH-7.pvt'' example_state)))
       = Inr [example_result]"
    using T l1 by simp
  obtain res2 added2 where
    a2: "PVTParser_parse_S ref_lib 0 ''site/BH-7.pvt'' example_state
         = (res2, example_state\<lparr>heap := heap example_state @ added2\<rparr>)"
    and b2: "map_sum id (map (load (example_state\<lparr>heap := heap example_state @ added2\<rparr>))) res2
         = parse ref_lib (files example_state) ''site/BH-7.pvt''"
    using T i0 by auto
  have "map_sum id (map (load (example_state\<lparr>heap := heap example_state @ added2\<rparr>))) res2
         = Inr [example_result]"
    using b2 by (simp add: fl example_parse)
  then have l3: "loaded (PVTParser_parse_S ref_lib 0 ''site/BH-7.pvt'' example_state) = Inr [example_result]"
    using a2 by (cases res2) (simp_all add: loaded_def)
  have l4: "loaded (parse_S ref_lib ''site/BH-7.pvt'' other_state) = Inr [example_result]"
    using T same l1 by simp
  show ?thesis
    using l1 f1 t1 n1 fr l2 i0 l3 same l4 by (intro conjI)
qed

end
